theory Spec2Isabelle
  imports Main
begin

section \<open>Python strings and containers\<close>

text \<open>
  Strings are modelled as ASCII character lists. \<open>str.lower\<close> and \<open>str.upper\<close> act on the
  26 letters; \<open>x in s\<close> on two strings is substring containment.
\<close>

definition lower_char :: "char \<Rightarrow> char" where
  "lower_char c =
     (case map_of (zip ''ABCDEFGHIJKLMNOPQRSTUVWXYZ'' ''abcdefghijklmnopqrstuvwxyz'') c of
        Some d \<Rightarrow> d | None \<Rightarrow> c)"

definition upper_char :: "char \<Rightarrow> char" where
  "upper_char c =
     (case map_of (zip ''abcdefghijklmnopqrstuvwxyz'' ''ABCDEFGHIJKLMNOPQRSTUVWXYZ'') c of
        Some d \<Rightarrow> d | None \<Rightarrow> c)"

definition lower :: "string \<Rightarrow> string" where
  "lower s = map lower_char s"

definition upper :: "string \<Rightarrow> string" where
  "upper s = map upper_char s"

fun starts_with :: "string \<Rightarrow> string \<Rightarrow> bool" where
  "starts_with s [] = True"
| "starts_with [] (p # ps) = False"
| "starts_with (c # cs) (p # ps) = (c = p \<and> starts_with cs ps)"

fun contains :: "string \<Rightarrow> string \<Rightarrow> bool" where
  "contains [] sub = (sub = [])"
| "contains (c # cs) sub = (starts_with (c # cs) sub \<or> contains cs sub)"

text \<open>\<open>list(dict.fromkeys(xs))\<close>: duplicates removed, first occurrences kept in order.\<close>

fun fromkeys :: "'a list \<Rightarrow> 'a list \<Rightarrow> 'a list" where
  "fromkeys seen [] = []"
| "fromkeys seen (x # xs) =
     (if x \<in> set seen then fromkeys seen xs else x # fromkeys (x # seen) xs)"

definition dict_fromkeys :: "'a list \<Rightarrow> 'a list" where
  "dict_fromkeys xs = fromkeys [] xs"

section \<open>Schema model (loaders/graph\_builder.py)\<close>

record table_info =
  t_columns :: "string list"
  t_description :: "string option"
  t_scoped :: bool
  t_scoping_column :: "string option"

record relationship =
  rel_from :: string
  rel_to :: string
  rel_on :: string
  rel_to_column :: "string option"

text \<open>
  \<open>find_path_between_tables\<close> wraps \<open>networkx.shortest_path\<close>: it returns a path, returns
  \<open>None\<close> when networkx reports that there is no path, and lets every other exception of
  networkx (a node that is not in the graph) escape.
\<close>

datatype path_result = Path "string list" | NoPath | NodeNotFound

text \<open>
  The schema graph together with the two library behaviours its callers rely on: the
  shortest-path search of networkx, and the order in which CPython enumerates a set
  (\<open>set_order\<close> receives the elements in insertion order and returns them in enumeration
  order; nothing is assumed about it here).
\<close>

record schema_graph =
  tables :: "(string \<times> table_info) list"
  relationships :: "relationship list"
  shortest_path :: "string \<Rightarrow> string \<Rightarrow> path_result"
  set_order :: "string list \<Rightarrow> string list"

definition get_table_info :: "schema_graph \<Rightarrow> string \<Rightarrow> table_info option" where
  "get_table_info G name = map_of (tables G) name"

definition table_names :: "schema_graph \<Rightarrow> string list" where
  "table_names G = map fst (tables G)"

text \<open>\<open>self.schema_graph.tables.get(table, {}).get('columns', [])\<close>\<close>

definition columns_of :: "schema_graph \<Rightarrow> string \<Rightarrow> string list" where
  "columns_of G t = (case get_table_info G t of None \<Rightarrow> [] | Some info \<Rightarrow> t_columns info)"

definition find_path_between_tables :: "schema_graph \<Rightarrow> string \<Rightarrow> string \<Rightarrow> path_result" where
  "find_path_between_tables G table1 table2 = shortest_path G table1 table2"

record join_step =
  js_from_table :: string
  js_to_table :: string
  js_join_column :: string
  js_to_column :: string

datatype py_error = NetworkXNodeNotFound | UnboundLocalError

text \<open>The inner search of \<open>get_join_path\<close>: the first relationship from \<open>a\<close> to \<open>b\<close>.\<close>

definition find_relationship :: "schema_graph \<Rightarrow> string \<Rightarrow> string \<Rightarrow> relationship option" where
  "find_relationship G a b = find (\<lambda>r. rel_from r = a \<and> rel_to r = b) (relationships G)"

definition rel_target_column :: "relationship \<Rightarrow> string" where
  "rel_target_column r = (case rel_to_column r of None \<Rightarrow> ''id'' | Some c \<Rightarrow> c)"

text \<open>\<open>for i in range(len(best_path) - 1)\<close>: one join per consecutive pair that has a relationship.\<close>

fun path_joins :: "schema_graph \<Rightarrow> string list \<Rightarrow> join_step list" where
  "path_joins G (a # b # rest) =
     (case find_relationship G a b of
        None \<Rightarrow> path_joins G (b # rest)
      | Some r \<Rightarrow>
          \<lparr>js_from_table = a, js_to_table = b, js_join_column = rel_on r,
           js_to_column = rel_target_column r\<rparr> # path_joins G (b # rest))"
| "path_joins G _ = []"

text \<open>
  \<open>for connected_table in connected_tables\<close>: keeps the first strictly shortest path; an
  exception of the path search leaves the loop.
\<close>

fun best_path :: "schema_graph \<Rightarrow> string \<Rightarrow> string list \<Rightarrow> string list option
    \<Rightarrow> py_error + string list option" where
  "best_path G table [] best = Inr best"
| "best_path G table (c # cs) best =
     (case find_path_between_tables G c table of
        NodeNotFound \<Rightarrow> Inl NetworkXNodeNotFound
      | NoPath \<Rightarrow> best_path G table cs best
      | Path p \<Rightarrow>
          (if p \<noteq> [] \<and> (case best of None \<Rightarrow> True | Some bp \<Rightarrow> length p < length bp)
           then best_path G table cs (Some p)
           else best_path G table cs best))"

fun join_path_loop :: "schema_graph \<Rightarrow> string list \<Rightarrow> string list \<Rightarrow> join_step list
    \<Rightarrow> py_error + join_step list" where
  "join_path_loop G [] connected joins = Inr joins"
| "join_path_loop G (table # rest) connected joins =
     (case best_path G table (set_order G connected) None of
        Inl e \<Rightarrow> Inl e
      | Inr None \<Rightarrow> join_path_loop G rest connected joins
      | Inr (Some p) \<Rightarrow>
          join_path_loop G rest
            (if table \<in> set connected then connected else connected @ [table])
            (joins @ path_joins G p))"

definition get_join_path :: "schema_graph \<Rightarrow> string list \<Rightarrow> py_error + join_step list" where
  "get_join_path G tbls =
     (case tbls of
        [] \<Rightarrow> Inr []
      | [t] \<Rightarrow> Inr []
      | t # rest \<Rightarrow> join_path_loop G rest [t] [])"

section \<open>Plans (validators/plan\_validator.py)\<close>

record join =
  j_from_table :: "string option"
  j_to_table :: "string option"
  j_from_column :: "string option"
  j_to_column :: "string option"
  j_type :: "string option"

text \<open>
  A plan is the dictionary that \<open>json.loads\<close> returns. Each of the eight required keys is
  either absent (\<open>None\<close>) or present with a value of the type the planner prompt asks for;
  \<open>limit\<close> may be present with the value \<open>null\<close>.
\<close>

record plan =
  p_tables :: "string list option"
  p_columns :: "(string \<rightharpoonup> string list) option"
  p_joins :: "join list option"
  p_filters :: "string list option"
  p_group_by :: "string list option"
  p_order_by :: "string list option"
  p_limit :: "int option option"
  p_needs_scoping :: "bool option"

definition required_fields :: "string list" where
  "required_fields =
     [''tables'', ''columns'', ''joins'', ''filters'', ''group_by'', ''order_by'', ''limit'',
      ''needs_scoping'']"

text \<open>\<open>field in plan\<close> for the required keys.\<close>

definition has_field :: "plan \<Rightarrow> string \<Rightarrow> bool" where
  "has_field p f =
     (if f = ''tables'' then p_tables p \<noteq> None
      else if f = ''columns'' then p_columns p \<noteq> None
      else if f = ''joins'' then p_joins p \<noteq> None
      else if f = ''filters'' then p_filters p \<noteq> None
      else if f = ''group_by'' then p_group_by p \<noteq> None
      else if f = ''order_by'' then p_order_by p \<noteq> None
      else if f = ''limit'' then p_limit p \<noteq> None
      else if f = ''needs_scoping'' then p_needs_scoping p \<noteq> None
      else False)"

definition missing_fields :: "plan \<Rightarrow> string list" where
  "missing_fields p = filter (\<lambda>f. \<not> has_field p f) required_fields"

datatype plan_error =
    InvalidJSON
  | MissingRequiredFields "string list"
  | NoValidTables "string list"

datatype plan_result = Valid plan | Invalid plan_error

text \<open>The \<open>repr\<close> of a list of plain identifiers, as the f-string of the error prints it.\<close>

fun repr_items :: "string list \<Rightarrow> string" where
  "repr_items [] = []"
| "repr_items [x] = [CHR 0x27] @ x @ [CHR 0x27]"
| "repr_items (x # y # ys) = [CHR 0x27] @ x @ [CHR 0x27] @ '', '' @ repr_items (y # ys)"

definition repr_list :: "string list \<Rightarrow> string" where
  "repr_list xs = ''['' @ repr_items xs @ '']''"

fun error_message :: "plan_error \<Rightarrow> string" where
  "error_message InvalidJSON = ''Invalid JSON plan format''"
| "error_message (MissingRequiredFields fs) = ''Missing required fields: '' @ repr_list fs"
| "error_message (NoValidTables ts) =
     ''No valid tables found. Invalid tables: '' @ repr_list ts"


subsection \<open>Text before parsing\<close>

text \<open>
  \<open>str.strip()\<close> removes the ASCII whitespace characters: tab, line feed, vertical tab,
  form feed, carriage return, the four separators \<open>0x1C\<close> to \<open>0x1F\<close>, and space.
\<close>

definition is_space :: "char \<Rightarrow> bool" where
  "is_space c \<longleftrightarrow>
     c \<in> set [CHR 0x09, CHR 0x0A, CHR 0x0B, CHR 0x0C, CHR 0x0D, CHR 0x1C, CHR 0x1D, CHR 0x1E,
       CHR 0x1F, CHR 0x20]"

definition lstrip :: "string \<Rightarrow> string" where
  "lstrip s = dropWhile is_space s"

definition rstrip :: "string \<Rightarrow> string" where
  "rstrip s = rev (dropWhile is_space (rev s))"

definition strip :: "string \<Rightarrow> string" where
  "strip s = rstrip (lstrip s)"

definition ends_with :: "string \<Rightarrow> string \<Rightarrow> bool" where
  "ends_with s suf = starts_with (rev s) (rev suf)"

text \<open>
  The scan of \<open>_extract_json_object\<close> from the first brace: the state is the nesting depth,
  whether the scan is inside a string and whether the previous character was a backslash;
  the result is the number of characters up to and including the matching brace.
\<close>

fun scan_object :: "string \<Rightarrow> int \<Rightarrow> bool \<Rightarrow> bool \<Rightarrow> nat \<Rightarrow> nat option" where
  "scan_object [] stack in_string escape n = None"
| "scan_object (ch # rest) stack in_string escape n =
     (if in_string then
        (if escape then scan_object rest stack True False (Suc n)
         else if ch = CHR 0x5C then scan_object rest stack True True (Suc n)
         else if ch = CHR 0x22 then scan_object rest stack False escape (Suc n)
         else scan_object rest stack True escape (Suc n))
      else
        (if ch = CHR 0x22 then scan_object rest stack True escape (Suc n)
         else if ch = CHR ''{'' then scan_object rest (stack + 1) False escape (Suc n)
         else if ch = CHR ''}'' then
           (if stack - 1 = 0 then Some (Suc n)
            else scan_object rest (stack - 1) False escape (Suc n))
         else scan_object rest stack False escape (Suc n)))"

definition strip_code_fence :: "string \<Rightarrow> string" where
  "strip_code_fence s =
     (if starts_with s ''```'' then
        (let s1 = (if CHR 0x0A \<in> set s then tl (dropWhile (\<lambda>c. c \<noteq> CHR 0x0A) s)
                   else drop 3 s);
             s2 = (if ends_with s1 ''```'' then take (length s1 - 3) s1 else s1)
         in strip s2)
      else s)"

definition extract_json_object :: "string \<Rightarrow> string" where
  "extract_json_object text =
     (if text = [] then text
      else
        (let s = strip_code_fence (strip text) in
         if CHR ''{'' \<notin> set s then s
         else
           (let from_brace = dropWhile (\<lambda>c. c \<noteq> CHR ''{'') s in
            case scan_object from_brace 0 False False 0 of
              Some n \<Rightarrow> strip (take n from_brace)
            | None \<Rightarrow> strip from_brace)))"

subsection \<open>Connectivity repair\<close>

record bridge_state =
  bs_joins :: "join list"
  bs_pairs :: "(string option \<times> string option) list"
  bs_connected :: "string list"

definition set_add :: "string \<Rightarrow> string list \<Rightarrow> string list" where
  "set_add x xs = (if x \<in> set xs then xs else xs @ [x])"

text \<open>The inner loop of \<open>_synthesize_join_bridges\<close> over the consecutive pairs of a path.\<close>

fun bridge_path :: "schema_graph \<Rightarrow> bridge_state \<Rightarrow> string list \<Rightarrow> bridge_state" where
  "bridge_path G st (a # b # rest) =
     bridge_path G
       (if (Some a, Some b) \<in> set (bs_pairs st)
        then st\<lparr>bs_connected := set_add b (bs_connected st)\<rparr>
        else
          (case find_relationship G a b of
             None \<Rightarrow> st
           | Some rel \<Rightarrow>
               \<lparr>bs_joins = bs_joins st @
                  [\<lparr>j_from_table = Some a, j_to_table = Some b, j_from_column = Some (rel_on rel),
                    j_to_column = Some (rel_target_column rel), j_type = Some ''INNER''\<rparr>],
                bs_pairs = bs_pairs st @ [(Some a, Some b)],
                bs_connected = set_add b (bs_connected st)\<rparr>))
       (b # rest)"
| "bridge_path G st _ = st"

text \<open>
  The outer loop over \<open>tables[1:]\<close>. \<open>Inl\<close> carries the state at the moment an exception
  left the loop, \<open>Inr\<close> the state after the last table.
\<close>

fun bridge_loop :: "schema_graph \<Rightarrow> string list \<Rightarrow> bridge_state \<Rightarrow> bridge_state + bridge_state"
  where
  "bridge_loop G [] st = Inr st"
| "bridge_loop G (t # rest) st =
     (if t \<in> set (bs_connected st) then bridge_loop G rest st
      else
        (case set_order G (bs_connected st) of
           [] \<Rightarrow> Inl st
         | c # cs \<Rightarrow>
             (case find_path_between_tables G (last (c # cs)) t of
                NodeNotFound \<Rightarrow> Inl st
              | NoPath \<Rightarrow> bridge_loop G rest st
              | Path p \<Rightarrow>
                  (if p = [] then bridge_loop G rest st
                   else bridge_loop G rest (bridge_path G st p)))))"

text \<open>Tables named by a join that the table list does not have, in the order met.\<close>

definition implied_tables :: "string list \<Rightarrow> join list \<Rightarrow> string list" where
  "implied_tables tbls joins =
     concat (map (\<lambda>j. concat (map (\<lambda>k.
        (case k of None \<Rightarrow> [] | Some t \<Rightarrow> (if t \<noteq> [] \<and> t \<notin> set tbls then [t] else [])))
        [j_from_table j, j_to_table j])) joins)"

definition plan_tables :: "plan \<Rightarrow> string list" where
  "plan_tables p = (case p_tables p of None \<Rightarrow> [] | Some ts \<Rightarrow> ts)"

definition plan_joins :: "plan \<Rightarrow> join list" where
  "plan_joins p = (case p_joins p of None \<Rightarrow> [] | Some js \<Rightarrow> js)"

definition plan_columns :: "plan \<Rightarrow> (string \<rightharpoonup> string list)" where
  "plan_columns p = (case p_columns p of None \<Rightarrow> Map.empty | Some m \<Rightarrow> m)"

text \<open>
  \<open>_synthesize_join_bridges\<close>. When an exception leaves the loop the plan is returned as it
  is; the joins appended so far are part of it exactly when the plan's own join list was
  not empty, because the loop then appended to that very list.
\<close>

definition synthesize_join_bridges :: "schema_graph \<Rightarrow> plan \<Rightarrow> plan" where
  "synthesize_join_bridges G p =
     (case plan_tables p of
        t0 # t1 # others \<Rightarrow>
          (let joins0 = plan_joins p;
               st0 = \<lparr>bs_joins = joins0,
                      bs_pairs = map (\<lambda>j. (j_from_table j, j_to_table j)) joins0,
                      bs_connected = [t0]\<rparr>
           in case bridge_loop G (t1 # others) st0 of
                Inl st \<Rightarrow> (if joins0 = [] then p else p\<lparr>p_joins := Some (bs_joins st)\<rparr>)
              | Inr st \<Rightarrow>
                  (let implied = implied_tables (t0 # t1 # others) (bs_joins st);
                       p1 = (if implied \<noteq> []
                             then p\<lparr>p_tables := Some (dict_fromkeys ((t0 # t1 # others) @ implied))\<rparr>
                             else p)
                   in p1\<lparr>p_joins := Some (bs_joins st)\<rparr>))
      | _ \<Rightarrow> p)"


subsection \<open>Column, join and scoping repair\<close>

text \<open>\<open>_validate_columns\<close>: the loop over the tables builds the validated dictionary.\<close>

fun validate_columns_loop :: "schema_graph \<Rightarrow> (string \<rightharpoonup> string list) \<Rightarrow> string list
    \<Rightarrow> (string \<rightharpoonup> string list) \<Rightarrow> (string \<rightharpoonup> string list)" where
  "validate_columns_loop G columns_dict [] validated = validated"
| "validate_columns_loop G columns_dict (t # ts) validated =
     (case get_table_info G t of
        None \<Rightarrow> validate_columns_loop G columns_dict ts validated
      | Some info \<Rightarrow>
          (let plan_cols = (case columns_dict t of None \<Rightarrow> [] | Some cs \<Rightarrow> cs);
               valid_columns = filter (\<lambda>col. col \<in> set (t_columns info)) plan_cols
           in validate_columns_loop G columns_dict ts (validated(t \<mapsto> valid_columns))))"

definition validate_columns :: "schema_graph \<Rightarrow> (string \<rightharpoonup> string list) \<Rightarrow> string list
    \<Rightarrow> (string \<rightharpoonup> string list)" where
  "validate_columns G columns_dict tbls = validate_columns_loop G columns_dict tbls Map.empty"

text \<open>
  \<open>_validate_joins\<close>: the relationship dictionary is keyed by (from, to), so of several
  relationships with the same key the last one is the one found.
\<close>

definition relationship_map :: "schema_graph \<Rightarrow> string \<times> string \<Rightarrow> relationship option" where
  "relationship_map G key =
     find (\<lambda>r. (rel_from r, rel_to r) = key) (rev (relationships G))"

definition validate_join :: "schema_graph \<Rightarrow> string list \<Rightarrow> join \<Rightarrow> join list" where
  "validate_join G tbls j =
     (case (j_from_table j, j_to_table j) of
        (Some a, Some b) \<Rightarrow>
          (if a \<notin> set tbls \<or> b \<notin> set tbls then []
           else
             (case relationship_map G (a, b) of
                None \<Rightarrow> []
              | Some rel \<Rightarrow>
                  [\<lparr>j_from_table = Some a, j_to_table = Some b, j_from_column = Some (rel_on rel),
                    j_to_column = Some (rel_target_column rel),
                    j_type = Some (case j_type j of None \<Rightarrow> ''INNER'' | Some ty \<Rightarrow> ty)\<rparr>]))
      | _ \<Rightarrow> [])"

definition validate_joins :: "schema_graph \<Rightarrow> join list \<Rightarrow> string list \<Rightarrow> join list" where
  "validate_joins G joins tbls =
     (if joins = [] then joins else concat (map (validate_join G tbls) joins))"

definition validate_scoping :: "schema_graph \<Rightarrow> string list \<Rightarrow> bool" where
  "validate_scoping G tbls =
     list_ex (\<lambda>t. case get_table_info G t of None \<Rightarrow> False | Some info \<Rightarrow> t_scoped info) tbls"

subsection \<open>Intent repair\<close>

definition any_word_in :: "string list \<Rightarrow> string \<Rightarrow> bool" where
  "any_word_in ws s = list_ex (\<lambda>w. contains s w) ws"

definition is_count_intent :: "string \<Rightarrow> bool" where
  "is_count_intent user_query =
     any_word_in [''how many'', ''count'', ''number of'', ''total''] (lower user_query)"

definition is_list_intent :: "string \<Rightarrow> bool" where
  "is_list_intent user_query =
     any_word_in [''list'', ''show'', ''get'', ''find''] (lower user_query)"

definition is_time_intent :: "string \<Rightarrow> bool" where
  "is_time_intent user_query =
     any_word_in [''today'', ''yesterday'', ''week'', ''month'', ''day''] (lower user_query)"

definition display_columns :: "string list \<Rightarrow> string list" where
  "display_columns cols =
     filter (\<lambda>col. any_word_in [''name'', ''title'', ''entity_name''] (lower col)) cols"

definition append_missing :: "string \<Rightarrow> string list \<Rightarrow> string list" where
  "append_missing c cs = (if c \<in> set cs then cs else cs @ [c])"

text \<open>One round of the loop of \<open>_ensure_display_columns\<close>, on the columns dictionary.\<close>

definition display_step :: "schema_graph \<Rightarrow> string \<Rightarrow> (string \<rightharpoonup> string list)
    \<Rightarrow> (string \<rightharpoonup> string list)" where
  "display_step G t cols =
     (let cur0 = (case cols t of None \<Rightarrow> [] | Some cs \<Rightarrow> cs);
          columns = columns_of G t;
          display = display_columns columns;
          cur1 = (if t = ''users'' \<and> ''first_name'' \<in> set columns \<and> ''last_name'' \<in> set columns
                  then append_missing ''last_name'' (append_missing ''first_name'' cur0)
                  else cur0);
          cur2 = (if cur1 = [] \<and> display \<noteq> [] then cur1 @ take 2 display else cur1)
      in cols(t \<mapsto> cur2))"

definition ensure_display_columns :: "schema_graph \<Rightarrow> plan \<Rightarrow> plan" where
  "ensure_display_columns G p =
     p\<lparr>p_columns := Some (foldl (\<lambda>cols t. display_step G t cols) (plan_columns p) (plan_tables p))\<rparr>"

definition time_columns :: "string list \<Rightarrow> string list" where
  "time_columns cols =
     filter (\<lambda>col. contains (lower col) ''date'' \<or> contains (lower col) ''created'') cols"

text \<open>One round of the loop of \<open>_ensure_time_columns\<close>.\<close>

definition time_step :: "schema_graph \<Rightarrow> string \<Rightarrow> (string \<rightharpoonup> string list)
    \<Rightarrow> (string \<rightharpoonup> string list)" where
  "time_step G t cols =
     (let cur0 = (case cols t of None \<Rightarrow> [] | Some cs \<Rightarrow> cs);
          tcs = time_columns (columns_of G t)
      in if \<not> list_ex (\<lambda>col. col \<in> set cur0) tcs
         then (case tcs of [] \<Rightarrow> cols(t \<mapsto> cur0) | tc # _ \<Rightarrow> cols(t \<mapsto> cur0 @ [tc]))
         else cols(t \<mapsto> cur0))"

definition ensure_time_columns :: "schema_graph \<Rightarrow> plan \<Rightarrow> plan" where
  "ensure_time_columns G p =
     p\<lparr>p_columns := Some (foldl (\<lambda>cols t. time_step G t cols) (plan_columns p) (plan_tables p))\<rparr>"

definition apply_intent_repairs :: "schema_graph \<Rightarrow> plan \<Rightarrow> string \<Rightarrow> plan" where
  "apply_intent_repairs G p user_query =
     (let p1 = (if is_count_intent user_query
                then p\<lparr>p_columns := Some Map.empty, p_group_by := Some [], p_limit := Some None\<rparr>
                else if is_list_intent user_query then ensure_display_columns G p
                else p)
      in if is_time_intent user_query \<and> \<not> is_count_intent user_query
         then ensure_time_columns G p1 else p1)"

subsection \<open>validate\_plan\<close>

text \<open>The steps of \<open>validate_plan\<close> after the table repair.\<close>

definition repair_plan :: "schema_graph \<Rightarrow> plan \<Rightarrow> string \<Rightarrow> plan" where
  "repair_plan G p user_query =
     (let tbls = plan_tables p;
          p1 = p\<lparr>p_columns := Some (validate_columns G (plan_columns p) tbls)\<rparr>;
          p2 = p1\<lparr>p_joins := Some (validate_joins G (plan_joins p1) tbls)\<rparr>;
          p3 = p2\<lparr>p_needs_scoping := Some (validate_scoping G tbls)\<rparr>
      in apply_intent_repairs G p3 user_query)"

text \<open>\<open>validate_plan\<close> from the parsed dictionary on.\<close>

definition validate_plan_dict :: "schema_graph \<Rightarrow> plan \<Rightarrow> string \<Rightarrow> plan_result" where
  "validate_plan_dict G plan0 user_query =
     (if missing_fields plan0 \<noteq> [] then Invalid (MissingRequiredFields (missing_fields plan0))
      else
        (let p = synthesize_join_bridges G plan0;
             valid_tables = table_names G;
             plan_set = dict_fromkeys (plan_tables p);
             invalid_tables = filter (\<lambda>t. t \<notin> set valid_tables) plan_set
         in if invalid_tables \<noteq> [] then
              (let kept = set_order G (filter (\<lambda>t. t \<in> set valid_tables) plan_set)
               in if kept = [] then Invalid (NoValidTables (set_order G invalid_tables))
                  else Valid (repair_plan G (p\<lparr>p_tables := Some kept\<rparr>) user_query))
            else Valid (repair_plan G p user_query)))"

text \<open>
  \<open>validate_plan\<close>: \<open>json_loads\<close> stands for \<open>json.loads\<close>, with \<open>None\<close> for a
  \<open>JSONDecodeError\<close>.
\<close>

definition validate_plan :: "schema_graph \<Rightarrow> (string \<Rightarrow> plan option) \<Rightarrow> string \<Rightarrow> string
    \<Rightarrow> plan_result" where
  "validate_plan G json_loads plan_json user_query =
     (case json_loads (extract_json_object plan_json) of
        None \<Rightarrow> Invalid InvalidJSON
      | Some plan0 \<Rightarrow> validate_plan_dict G plan0 user_query)"

section \<open>Regular expressions\<close>

text \<open>
  The validator matches SQL text with Python's \<open>re\<close>. This is the fragment of \<open>re\<close> its
  patterns use, on ASCII text: literals, character classes, greedy repetition of a class, the
  lazy \<open>.*?\<close> (with \<open>DOTALL\<close>), the word boundary \<open>\b\<close>, alternation, look-ahead and one
  capturing group. A match attempt returns the states it can end in, in the order in which a
  backtracking matcher reaches them, so the head of the list is the match Python reports.
\<close>

definition is_word_char :: "char \<Rightarrow> bool" where
  "is_word_char c \<longleftrightarrow>
     c \<in> set ''abcdefghijklmnopqrstuvwxyzABCDEFGHIJKLMNOPQRSTUVWXYZ0123456789_''"

definition is_alpha :: "char \<Rightarrow> bool" where
  "is_alpha c \<longleftrightarrow> c \<in> set ''abcdefghijklmnopqrstuvwxyzABCDEFGHIJKLMNOPQRSTUVWXYZ''"

definition is_quote :: "char \<Rightarrow> bool" where
  "is_quote c \<longleftrightarrow> c = CHR 0x27 \<or> c = CHR 0x22"

datatype rx =
    Lit string
  | Class "char \<Rightarrow> bool"
  | StarC "char \<Rightarrow> bool"
  | PlusC "char \<Rightarrow> bool"
  | OptC "char \<Rightarrow> bool"
  | LazyAny
  | WordB
  | Seq rx rx
  | Alt rx rx
  | Look rx
  | Group rx

text \<open>
  A position in the text: the character before it (for \<open>\b\<close>), the text from it on, and the
  text captured by the group so far.
\<close>

record mstate =
  m_prev :: "char option"
  m_rest :: string
  m_group :: string

text \<open>A literal at the head of the text; with \<open>IGNORECASE\<close> letters match in either case.\<close>

fun lit_prefix :: "bool \<Rightarrow> string \<Rightarrow> string \<Rightarrow> bool" where
  "lit_prefix ic [] s = True"
| "lit_prefix ic (p # ps) [] = False"
| "lit_prefix ic (p # ps) (c # cs) =
     (if (if ic then upper_char p = upper_char c else p = c) then lit_prefix ic ps cs else False)"

fun advance :: "nat \<Rightarrow> mstate \<Rightarrow> mstate" where
  "advance 0 st = st"
| "advance (Suc n) st =
     (case m_rest st of
        [] \<Rightarrow> st
      | c # cs \<Rightarrow> advance n (st\<lparr>m_prev := Some c, m_rest := cs\<rparr>))"

text \<open>The states after zero, one, two, ... characters of a class, while the class matches.\<close>

fun run_states :: "(char \<Rightarrow> bool) \<Rightarrow> char option \<Rightarrow> string \<Rightarrow> string \<Rightarrow> mstate list" where
  "run_states f prev [] g = [\<lparr>m_prev = prev, m_rest = [], m_group = g\<rparr>]"
| "run_states f prev (c # cs) g =
     \<lparr>m_prev = prev, m_rest = c # cs, m_group = g\<rparr> #
       (if f c then run_states f (Some c) cs g else [])"

definition at_boundary :: "mstate \<Rightarrow> bool" where
  "at_boundary st \<longleftrightarrow>
     (case m_prev st of None \<Rightarrow> False | Some c \<Rightarrow> is_word_char c) \<noteq>
     (case m_rest st of [] \<Rightarrow> False | c # cs \<Rightarrow> is_word_char c)"

fun rx_match :: "bool \<Rightarrow> rx \<Rightarrow> mstate \<Rightarrow> mstate list" where
  "rx_match ic (Lit l) st = (if lit_prefix ic l (m_rest st) then [advance (length l) st] else [])"
| "rx_match ic (Class f) st =
     (case m_rest st of
        [] \<Rightarrow> []
      | c # cs \<Rightarrow> (if f c then [st\<lparr>m_prev := Some c, m_rest := cs\<rparr>] else []))"
| "rx_match ic (StarC f) st = rev (run_states f (m_prev st) (m_rest st) (m_group st))"
| "rx_match ic (PlusC f) st = rev (tl (run_states f (m_prev st) (m_rest st) (m_group st)))"
| "rx_match ic (OptC f) st =
     (case m_rest st of
        [] \<Rightarrow> [st]
      | c # cs \<Rightarrow> (if f c then [st\<lparr>m_prev := Some c, m_rest := cs\<rparr>, st] else [st]))"
| "rx_match ic LazyAny st = run_states (\<lambda>c. True) (m_prev st) (m_rest st) (m_group st)"
| "rx_match ic WordB st = (if at_boundary st then [st] else [])"
| "rx_match ic (Seq a b) st = concat (map (rx_match ic b) (rx_match ic a st))"
| "rx_match ic (Alt a b) st = rx_match ic a st @ rx_match ic b st"
| "rx_match ic (Look a) st = (if rx_match ic a st = [] then [] else [st])"
| "rx_match ic (Group a) st =
     map (\<lambda>st'. st'\<lparr>m_group := take (length (m_rest st) - length (m_rest st')) (m_rest st)\<rparr>)
       (rx_match ic a st)"

fun seq :: "rx list \<Rightarrow> rx" where
  "seq [] = Lit []"
| "seq [r] = r"
| "seq (r # rs) = Seq r (seq rs)"

text \<open>\<open>re.search\<close>: the first match at the leftmost position that has one.\<close>

fun search_from :: "bool \<Rightarrow> rx \<Rightarrow> char option \<Rightarrow> string \<Rightarrow> mstate option" where
  "search_from ic r prev [] =
     (case rx_match ic r \<lparr>m_prev = prev, m_rest = [], m_group = []\<rparr> of
        [] \<Rightarrow> None | m # ms \<Rightarrow> Some m)"
| "search_from ic r prev (c # cs) =
     (case rx_match ic r \<lparr>m_prev = prev, m_rest = c # cs, m_group = []\<rparr> of
        [] \<Rightarrow> search_from ic r (Some c) cs
      | m # ms \<Rightarrow> Some m)"

definition re_search :: "bool \<Rightarrow> rx \<Rightarrow> string \<Rightarrow> mstate option" where
  "re_search ic r s = search_from ic r None s"

definition found :: "bool \<Rightarrow> rx \<Rightarrow> string \<Rightarrow> bool" where
  "found ic r s \<longleftrightarrow> re_search ic r s \<noteq> None"

text \<open>\<open>match.end()\<close> of a match in the text \<open>s\<close>.\<close>

definition match_end :: "string \<Rightarrow> mstate \<Rightarrow> nat" where
  "match_end s m = length s - length (m_rest m)"

text \<open>
  \<open>re.finditer\<close>: the matches from left to right, each search resuming where the previous
  match ended (\<open>skip\<close> counts the characters still covered by it).
\<close>

fun finditer_from :: "bool \<Rightarrow> rx \<Rightarrow> nat \<Rightarrow> char option \<Rightarrow> string \<Rightarrow> mstate list" where
  "finditer_from ic r skip prev [] =
     (if skip = 0 then
        (case rx_match ic r \<lparr>m_prev = prev, m_rest = [], m_group = []\<rparr> of
           [] \<Rightarrow> [] | m # ms \<Rightarrow> [m])
      else [])"
| "finditer_from ic r skip prev (c # cs) =
     (if 0 < skip then finditer_from ic r (skip - 1) (Some c) cs
      else
        (case rx_match ic r \<lparr>m_prev = prev, m_rest = c # cs, m_group = []\<rparr> of
           [] \<Rightarrow> finditer_from ic r 0 (Some c) cs
         | m # ms \<Rightarrow> m # finditer_from ic r (length cs - length (m_rest m)) (Some c) cs))"

definition finditer :: "bool \<Rightarrow> rx \<Rightarrow> string \<Rightarrow> mstate list" where
  "finditer ic r s = finditer_from ic r 0 None s"

text \<open>
  Several patterns are built by interpolating a name or a value into the pattern text. The
  model reads the interpolated text as a literal, which is what \<open>re\<close> does when the text has
  none of the characters that are special in a pattern.
\<close>

definition plain :: "string \<Rightarrow> bool" where
  "plain s \<longleftrightarrow> list_all (\<lambda>c. c \<notin> set (CHR 0x5C # ''.^$*+?{}[]|()'')) s"

section \<open>SQL validator (validators/query\_validator.py)\<close>

subsection \<open>Configuration, libraries and results\<close>

text \<open>
  \<open>settings.security\<close>: the scoping column, the auto-scoping switch and the two custom rules
  that \<open>get_custom_rules\<close> is read for (\<open>allowed_operations\<close> is \<open>['SELECT']\<close> when the
  rule is absent).
\<close>

record security_config =
  cfg_scoping_column :: string
  cfg_enable_auto_scoping :: bool
  cfg_max_tables :: "nat option"
  cfg_allowed_operations :: "string list"

text \<open>
  What \<open>_ast_validate\<close> reads off the tree that \<open>sqlglot.parse_one\<close> returns: name and
  \<open>alias_or_name\<close> of every table, the aliases of the select list, name and table qualifier
  of every column reference, and the tree printed in the MySQL dialect.
\<close>

record glot =
  g_tables :: "(string \<times> string) list"
  g_select_aliases :: "string list"
  g_columns :: "(string \<times> string) list"
  g_sql :: string

text \<open>
  The libraries behind the validator: \<open>sqlparse.parse\<close> (the texts of the statements it
  splits the input into), \<open>sqlglot.parse_one\<close> (\<open>None\<close> when sqlglot is not installed or
  raises) and the enumeration order of a set.
\<close>

record sql_libs =
  sqlparse_parse :: "string \<Rightarrow> string list"
  sqlglot_parse_one :: "string \<Rightarrow> glot option"
  enumerate_set :: "string list \<Rightarrow> string list"

record query_validator =
  qv_schema :: schema_graph
  qv_config :: security_config
  qv_libs :: sql_libs

text \<open>The part of a \<open>UserContext\<close> that \<open>get_scoping_requirements\<close> reads.\<close>

record user_context =
  uc_scoping_value :: "string option"
  uc_bypass_validation :: bool
  uc_requires_scoping :: bool
  uc_accessible_entities :: "string list option"

datatype sql_error =
    InvalidSQLSyntax
  | ColumnNotInTable string string
  | ColumnNotFound string
  | MissingScopingFilterOn "string list"
  | ScopedTablesNeedFilter "string list"
  | DangerousOperation string
  | MultipleStatements
  | SqlComments
  | BlockComments
  | TooManyTables nat nat
  | OperationNotAllowed string "string list"
  | IncorrectJoins "string list"

record sql_ok =
  ok_tables :: "string list"
  ok_scoped_tables :: "string list"
  ok_modified_sql :: string
  ok_scoping_applied :: bool
  ok_ast_used :: bool

text \<open>
  \<open>OutsideModel\<close> marks the inputs whose patterns the model does not read: an interpolated
  name or value with a character that is special in a pattern.
\<close>

datatype sql_result = SqlValid sql_ok | SqlInvalid sql_error | OutsideModel

text \<open>\<open>settings.get_scoped_tables(schema_graph)\<close>\<close>

definition get_scoped_tables :: "security_config \<Rightarrow> schema_graph \<Rightarrow> (string \<times> string) list" where
  "get_scoped_tables cfg G =
     map (\<lambda>(name, info).
            (name, case t_scoping_column info of None \<Rightarrow> cfg_scoping_column cfg | Some c \<Rightarrow> c))
       (filter (\<lambda>(name, info). t_scoped info) (tables G))"

definition scoped_tables :: "query_validator \<Rightarrow> (string \<times> string) list" where
  "scoped_tables V = get_scoped_tables (qv_config V) (qv_schema V)"

text \<open>\<open>table in self.scoped_tables\<close>\<close>

definition is_scoped_table :: "query_validator \<Rightarrow> string \<Rightarrow> bool" where
  "is_scoped_table V t \<longleftrightarrow> map_of (scoped_tables V) t \<noteq> None"

text \<open>An f-string prints \<open>None\<close> for a missing value.\<close>

definition fmt :: "string option \<Rightarrow> string" where
  "fmt v = (case v of None \<Rightarrow> ''None'' | Some s \<Rightarrow> s)"

text \<open>A value is truthy when it is neither \<open>None\<close> nor empty.\<close>

definition truthy :: "'a list option \<Rightarrow> bool" where
  "truthy v = (case v of None \<Rightarrow> False | Some s \<Rightarrow> s \<noteq> [])"

fun py_join :: "string \<Rightarrow> string list \<Rightarrow> string" where
  "py_join sep [] = []"
| "py_join sep [x] = x"
| "py_join sep (x # y # ys) = x @ sep @ py_join sep (y # ys)"

subsection \<open>Table extraction\<close>

text \<open>\<open>re.sub(r'\s+', ' ', text)\<close>: every run of whitespace becomes one space.\<close>

fun collapse_ws :: "bool \<Rightarrow> string \<Rightarrow> string" where
  "collapse_ws in_run [] = []"
| "collapse_ws in_run (c # cs) =
     (if is_space c then (if in_run then collapse_ws True cs else CHR '' '' # collapse_ws True cs)
      else c # collapse_ws False cs)"

definition is_table_char :: "char \<Rightarrow> bool" where
  "is_table_char c \<longleftrightarrow> c = CHR 0x60 \<or> is_word_char c \<or> c = CHR ''.''"

text \<open>\<open>\bFROM\s+([`\w\.]+)\<close> and its siblings for \<open>JOIN\<close>, \<open>UPDATE\<close> and \<open>INTO\<close>.\<close>

definition table_ref :: "string \<Rightarrow> rx" where
  "table_ref kw = Seq WordB (Seq (Lit kw) (Seq (PlusC is_space) (Group (PlusC is_table_char))))"

text \<open>\<open>\bDELETE\s+FROM\s+([`\w\.]+)\<close>\<close>

definition delete_from_ref :: rx where
  "delete_from_ref =
     Seq WordB (Seq (Lit ''DELETE'') (Seq (PlusC is_space) (Seq (Lit ''FROM'')
       (Seq (PlusC is_space) (Group (PlusC is_table_char))))))"

definition table_patterns :: "rx list" where
  "table_patterns =
     [table_ref ''FROM'', table_ref ''JOIN'', table_ref ''UPDATE'', table_ref ''INTO'',
      delete_from_ref]"

definition strip_char :: "char \<Rightarrow> string \<Rightarrow> string" where
  "strip_char ch s = rev (dropWhile (\<lambda>c. c = ch) (rev (dropWhile (\<lambda>c. c = ch) s)))"

text \<open>\<open>raw.split('.')[-1].strip('`').lower()\<close>\<close>

definition table_name_of :: "string \<Rightarrow> string" where
  "table_name_of raw =
     lower (strip_char (CHR 0x60) (rev (takeWhile (\<lambda>c. c \<noteq> CHR ''.'') (rev raw))))"

definition not_a_table :: "string list" where
  "not_a_table = [''id'', ''count'', ''sum'', ''avg'', ''min'', ''max'']"

definition add_table :: "string list \<Rightarrow> mstate \<Rightarrow> string list" where
  "add_table tbls m =
     (let name = table_name_of (m_group m)
      in if name \<noteq> [] \<and> name \<notin> set not_a_table then set_add name tbls else tbls)"

text \<open>\<open>_extract_tables\<close>: the set of names, kept in the order in which they were added.\<close>

definition extract_tables :: "string \<Rightarrow> string list" where
  "extract_tables sql_text =
     (let sql_norm = strip (collapse_ws False sql_text)
      in foldl (\<lambda>tbls pat. foldl add_table tbls (finditer True pat sql_norm)) [] table_patterns)"

subsection \<open>Scoping filter\<close>

text \<open>\<open>{column}\s*=\s*['"]?{value}['"]?\<close>\<close>

definition equals_value :: "string \<Rightarrow> string \<Rightarrow> rx" where
  "equals_value col v =
     Seq (Lit col) (Seq (StarC is_space) (Seq (Lit ''='') (Seq (StarC is_space)
       (Seq (OptC is_quote) (Seq (Lit v) (OptC is_quote))))))"

text \<open>\<open>{column}\s*=\s*%s\<close> and \<open>{column}\s*=\s*\?\<close>\<close>

definition equals_placeholder :: "string \<Rightarrow> string \<Rightarrow> rx" where
  "equals_placeholder col ph =
     Seq (Lit col) (Seq (StarC is_space) (Seq (Lit ''='') (Seq (StarC is_space) (Lit ph))))"

text \<open>\<open>{column}\s+IN\s*\(\s*['"]?{entities}['"]?\s*\)\<close>\<close>

definition in_entities :: "string \<Rightarrow> string \<Rightarrow> rx" where
  "in_entities col ents =
     Seq (Lit col) (Seq (PlusC is_space) (Seq (Lit ''IN'') (Seq (StarC is_space) (Seq (Lit ''('')
       (Seq (StarC is_space) (Seq (OptC is_quote) (Seq (Lit ents) (Seq (OptC is_quote)
         (Seq (StarC is_space) (Lit '')''))))))))))"

definition entities_str :: "string list \<Rightarrow> string" where
  "entities_str ents = py_join ([CHR 0x27] @ '', '' @ [CHR 0x27]) ents"

definition several :: "string list option \<Rightarrow> bool" where
  "several accessible = (case accessible of None \<Rightarrow> False | Some es \<Rightarrow> 1 < length es)"

definition accessible_list :: "string list option \<Rightarrow> string list" where
  "accessible_list accessible = (case accessible of None \<Rightarrow> [] | Some es \<Rightarrow> es)"

text \<open>\<open>self.scoped_tables.get(table, scoping_column)\<close>, as an f-string prints it.\<close>

definition table_scoping_column :: "query_validator \<Rightarrow> string \<Rightarrow> string option \<Rightarrow> string" where
  "table_scoping_column V t scoping_column =
     (case map_of (scoped_tables V) t of None \<Rightarrow> fmt scoping_column | Some c \<Rightarrow> c)"

definition scoping_patterns :: "string \<Rightarrow> string option \<Rightarrow> string list option \<Rightarrow> rx list" where
  "scoping_patterns col scoping_value accessible =
     [equals_value col (fmt scoping_value), equals_placeholder col ''%s'',
      equals_placeholder col ''?''] @
     (if several accessible then [in_entities col (entities_str (accessible_list accessible))]
      else [])"

text \<open>The interpolated texts of the scoping patterns are all literal.\<close>

definition scoping_plain :: "query_validator \<Rightarrow> string list \<Rightarrow> string option \<Rightarrow> string option
    \<Rightarrow> string list option \<Rightarrow> bool" where
  "scoping_plain V scoped scoping_value scoping_column accessible \<longleftrightarrow>
     list_all (\<lambda>t. plain (table_scoping_column V t scoping_column)) scoped \<and>
     plain (fmt scoping_value) \<and>
     (if several accessible then plain (entities_str (accessible_list accessible)) else True)"

text \<open>\<open>_check_scoping_filter_exists_with_context\<close>: the patterns are searched in the
  lower-cased statement.\<close>

definition check_scoping_filter_exists_with_context :: "query_validator \<Rightarrow> string \<Rightarrow> string list
    \<Rightarrow> string option \<Rightarrow> string option \<Rightarrow> string list option \<Rightarrow> bool" where
  "check_scoping_filter_exists_with_context V statement scoped scoping_value scoping_column
      accessible =
     (let sql_str = lower statement
      in list_ex (\<lambda>t.
           list_ex (\<lambda>pattern. found False pattern sql_str)
             (scoping_patterns (table_scoping_column V t scoping_column) scoping_value accessible))
         scoped)"

definition filter_condition :: "query_validator \<Rightarrow> string option \<Rightarrow> string option
    \<Rightarrow> string list option \<Rightarrow> string \<Rightarrow> string" where
  "filter_condition V scoping_value scoping_column accessible t =
     (let col = table_scoping_column V t scoping_column
      in if several accessible
         then col @ '' IN ('' @ [CHR 0x27] @ entities_str (accessible_list accessible) @
                [CHR 0x27] @ '')''
         else col @ '' = '' @ [CHR 0x27] @ fmt scoping_value @ [CHR 0x27])"

text \<open>\<open>\bWHERE\b\<close>\<close>

definition keyword :: "string \<Rightarrow> rx" where
  "keyword kw = Seq WordB (Seq (Lit kw) WordB)"

text \<open>\<open>\bFROM\b.*?(?=\b(?:ORDER BY|GROUP BY|LIMIT|OFFSET)\b)\<close>\<close>

definition clause_ahead :: rx where
  "clause_ahead =
     Look (Seq WordB (Seq
       (Alt (Lit ''ORDER BY'') (Alt (Lit ''GROUP BY'') (Alt (Lit ''LIMIT'') (Lit ''OFFSET''))))
       WordB))"

definition from_section :: rx where
  "from_section = Seq WordB (Seq (Lit ''FROM'') (Seq WordB (Seq LazyAny clause_ahead)))"

text \<open>\<open>str.rstrip(';')\<close>\<close>

definition rstrip_semicolons :: "string \<Rightarrow> string" where
  "rstrip_semicolons s = rev (dropWhile (\<lambda>c. c = CHR '';'') (rev s))"

text \<open>\<open>_append_scoping_filter_with_context\<close>\<close>

definition append_scoping_filter_with_context :: "query_validator \<Rightarrow> string \<Rightarrow> string list
    \<Rightarrow> string option \<Rightarrow> string option \<Rightarrow> string list option \<Rightarrow> string" where
  "append_scoping_filter_with_context V sql_str scoped scoping_value scoping_column accessible =
     (let filter_clause =
            py_join '' AND '' (map (filter_condition V scoping_value scoping_column accessible) scoped)
      in case re_search True (keyword ''WHERE'') sql_str of
           Some where_match \<Rightarrow>
             (let insert_pos = match_end sql_str where_match
              in take insert_pos sql_str @ '' AND ('' @ filter_clause @ '')'' @
                 drop insert_pos sql_str)
         | None \<Rightarrow>
             (case re_search True from_section sql_str of
                Some from_match \<Rightarrow>
                  (let insert_pos = match_end sql_str from_match
                   in take insert_pos sql_str @ '' WHERE '' @ filter_clause @
                      drop insert_pos sql_str)
              | None \<Rightarrow> rstrip_semicolons sql_str @ '' WHERE '' @ filter_clause @ '';''))"

text \<open>
  \<open>_validate_scoping_filtering_with_context\<close>: an error, or the modified SQL (if any) and
  the \<open>scoping_applied\<close> flag.
\<close>

definition validate_scoping_filtering_with_context :: "query_validator \<Rightarrow> string \<Rightarrow> string list
    \<Rightarrow> string option \<Rightarrow> string option \<Rightarrow> string list option
    \<Rightarrow> sql_error + (string option \<times> bool)" where
  "validate_scoping_filtering_with_context V statement scoped scoping_value scoping_column
      accessible =
     (if scoped = [] then Inr (None, False)
      else if \<not> check_scoping_filter_exists_with_context V statement scoped scoping_value
                 scoping_column accessible
      then
        (if \<not> cfg_enable_auto_scoping (qv_config V) then Inl (ScopedTablesNeedFilter scoped)
         else
           (let modified_sql = append_scoping_filter_with_context V statement scoped
                  scoping_value scoping_column accessible
            in if modified_sql \<noteq> [] then Inr (Some modified_sql, True)
               else Inl (ScopedTablesNeedFilter scoped)))
      else Inr (None, True))"

subsection \<open>Safety checks and custom rules\<close>

definition dangerous_keywords :: "string list" where
  "dangerous_keywords =
     [''DROP'', ''DELETE'', ''TRUNCATE'', ''ALTER'', ''CREATE'', ''INSERT'', ''UPDATE'']"

text \<open>\<open>;\s*[A-Za-z]\<close>, \<open>--\s*[A-Za-z]\<close> and \<open>/\*.*?\*/\<close>\<close>

definition second_statement :: rx where
  "second_statement = Seq (Lit '';'') (Seq (StarC is_space) (Class is_alpha))"

definition line_comment :: rx where
  "line_comment = Seq (Lit ''--'') (Seq (StarC is_space) (Class is_alpha))"

definition block_comment :: rx where
  "block_comment = Seq (Lit ''/*'') (Seq LazyAny (Lit ''*/''))"

text \<open>\<open>_perform_safety_checks\<close>: the first check that fails, if any.\<close>

definition perform_safety_checks :: "string \<Rightarrow> sql_error option" where
  "perform_safety_checks statement =
     (let sql_str = upper statement
      in case find (\<lambda>kw. found False (keyword kw) sql_str) dangerous_keywords of
           Some kw \<Rightarrow> Some (DangerousOperation kw)
         | None \<Rightarrow>
             (if found True second_statement sql_str then Some MultipleStatements
              else if found True line_comment sql_str then Some SqlComments
              else if found True block_comment sql_str then Some BlockComments
              else None))"

definition operations :: "string list" where
  "operations = [''SELECT'', ''INSERT'', ''UPDATE'', ''DELETE'', ''DROP'', ''CREATE'', ''ALTER'']"

text \<open>\<open>{from_table}\.{on_column}\s*=\s*{to_table}\.id\<close> and the same equation reversed.\<close>

definition wrong_join_patterns :: "relationship \<Rightarrow> rx list" where
  "wrong_join_patterns rel =
     [Seq (Lit (rel_from rel)) (Seq (Lit ''.'') (Seq (Lit (rel_on rel)) (Seq (StarC is_space)
        (Seq (Lit ''='') (Seq (StarC is_space) (Seq (Lit (rel_to rel)) (Lit ''.id''))))))),
      Seq (Lit (rel_to rel)) (Seq (Lit ''.id'') (Seq (StarC is_space) (Seq (Lit ''='')
        (Seq (StarC is_space) (Seq (Lit (rel_from rel)) (Seq (Lit ''.'') (Lit (rel_on rel))))))))]"

definition expected_right :: "schema_graph \<Rightarrow> relationship \<Rightarrow> string" where
  "expected_right G rel =
     (if truthy (rel_to_column rel) then lower (fmt (rel_to_column rel))
      else if lower (rel_on rel) \<in> set (map lower (columns_of G (rel_to rel)))
      then lower (rel_on rel) else ''id'')"

text \<open>The relationships whose join patterns are searched.\<close>

definition checked_relationships :: "schema_graph \<Rightarrow> string list \<Rightarrow> relationship list" where
  "checked_relationships G used =
     filter (\<lambda>rel. rel_from rel \<noteq> [] \<and> rel_to rel \<noteq> [] \<and> rel_on rel \<noteq> [] \<and>
                   rel_from rel \<in> set used \<and> rel_to rel \<in> set used \<and>
                   expected_right G rel \<noteq> ''id'')
       (relationships G)"

definition join_issue :: "schema_graph \<Rightarrow> relationship \<Rightarrow> string" where
  "join_issue G rel =
     ''Incorrect join between '' @ rel_from rel @ '' and '' @ rel_to rel @ ''. Use '' @
     rel_from rel @ ''.'' @ rel_on rel @ '' = '' @ rel_to rel @ ''.'' @ expected_right G rel"

definition join_issues :: "schema_graph \<Rightarrow> string \<Rightarrow> string list \<Rightarrow> string list" where
  "join_issues G statement used =
     (let sql_lower = lower statement
      in concat (map (\<lambda>rel.
           map (\<lambda>pat. join_issue G rel)
             (filter (\<lambda>pat. found False pat sql_lower) (wrong_join_patterns rel)))
         (checked_relationships G used)))"

definition joins_plain :: "schema_graph \<Rightarrow> string list \<Rightarrow> bool" where
  "joins_plain G used \<longleftrightarrow>
     list_all (\<lambda>rel. plain (rel_from rel) \<and> plain (rel_on rel) \<and> plain (rel_to rel))
       (checked_relationships G used)"

text \<open>\<open>_perform_custom_validation\<close>: the first rule that fails, if any.\<close>

definition perform_custom_validation :: "query_validator \<Rightarrow> string \<Rightarrow> string list
    \<Rightarrow> sql_error option" where
  "perform_custom_validation V statement used =
     (case (case cfg_max_tables (qv_config V) of
              None \<Rightarrow> None
            | Some mx \<Rightarrow> (if mx \<noteq> 0 \<and> mx < length used
                          then Some (TooManyTables mx (length used)) else None)) of
        Some e \<Rightarrow> Some e
      | None \<Rightarrow>
          (let sql_str = upper statement;
               allowed = cfg_allowed_operations (qv_config V)
           in case find (\<lambda>operation. found False (keyword operation) sql_str \<and>
                                     operation \<notin> set allowed) operations of
                Some operation \<Rightarrow> Some (OperationNotAllowed operation allowed)
              | None \<Rightarrow>
                  (if relationships (qv_schema V) = [] then None
                   else
                     (case join_issues (qv_schema V) statement used of
                        [] \<Rightarrow> None
                      | issue # more_issues \<Rightarrow> Some (IncorrectJoins (issue # more_issues))))))"

subsection \<open>The AST tier\<close>

text \<open>Assignment to a dictionary key: an existing key keeps its place.\<close>

fun dict_set :: "'k \<Rightarrow> 'v \<Rightarrow> ('k \<times> 'v) list \<Rightarrow> ('k \<times> 'v) list" where
  "dict_set k v [] = [(k, v)]"
| "dict_set k v ((k', v') # kvs) =
     (if k = k' then (k, v) # kvs else (k', v') # dict_set k v kvs)"

text \<open>The loop over \<open>parsed.find_all(exp.Table)\<close>: the alias dictionary and the used tables.\<close>

definition alias_to_table :: "glot \<Rightarrow> (string \<times> string) list" where
  "alias_to_table g =
     foldl (\<lambda>d (name, alias).
              (let base = lower name; a = lower alias
               in if a \<noteq> [] then dict_set a (if base \<noteq> [] then base else a) d else d))
       [] (g_tables g)"

definition ast_used_tables :: "glot \<Rightarrow> string list" where
  "ast_used_tables g =
     foldl (\<lambda>used (name, alias). (if lower name \<noteq> [] then set_add (lower name) used else used))
       [] (g_tables g)"

definition select_aliases :: "glot \<Rightarrow> string list" where
  "select_aliases g =
     filter (\<lambda>a. a \<noteq> []) (map (\<lambda>a. lower (strip_char (CHR 0x60) a)) (g_select_aliases g))"

definition lower_columns :: "schema_graph \<Rightarrow> string \<Rightarrow> string list" where
  "lower_columns G t = map lower (columns_of G t)"

text \<open>The check of one column reference.\<close>

definition check_column :: "query_validator \<Rightarrow> glot \<Rightarrow> string \<times> string \<Rightarrow> sql_error option" where
  "check_column V g col =
     (let G = qv_schema V; col_name = lower (fst col); tbl_qual = lower (snd col)
      in if tbl_qual \<noteq> [] then
           (let base_tbl = (case map_of (alias_to_table g) tbl_qual of
                              None \<Rightarrow> tbl_qual | Some b \<Rightarrow> b)
            in if base_tbl \<in> set (table_names G) \<and> col_name \<noteq> [] \<and>
                  col_name \<notin> set (lower_columns G base_tbl)
               then Some (ColumnNotInTable col_name base_tbl) else None)
         else if col_name \<in> set (select_aliases g) then None
         else if filter (\<lambda>t. col_name \<in> set (lower_columns G t))
                   (enumerate_set (qv_libs V) (ast_used_tables g)) = []
         then Some (ColumnNotFound col_name) else None)"

fun first_error :: "('a \<Rightarrow> sql_error option) \<Rightarrow> 'a list \<Rightarrow> sql_error option" where
  "first_error f [] = None"
| "first_error f (x # xs) = (case f x of Some e \<Rightarrow> Some e | None \<Rightarrow> first_error f xs)"

text \<open>\<open>permission_manager.get_scoping_requirements\<close>: whether scoping is required, the
  scoping column and the accessible entities.\<close>

definition get_scoping_requirements :: "security_config \<Rightarrow> user_context
    \<Rightarrow> bool \<times> string option \<times> string list option" where
  "get_scoping_requirements cfg u =
     (if uc_bypass_validation u then (False, None, None)
      else if \<not> uc_requires_scoping u then (False, None, None)
      else (True, Some (cfg_scoping_column cfg), uc_accessible_entities u))"

text \<open>\<open>\b{alias}\.{column}\s*=\s*['"]?{value}['"]?\<close> and the form without the alias.\<close>

definition alias_equals_value :: "string \<Rightarrow> string \<Rightarrow> string \<Rightarrow> rx" where
  "alias_equals_value alias col v = Seq WordB (Seq (Lit alias) (Seq (Lit ''.'') (equals_value col v)))"

definition bare_equals_value :: "string \<Rightarrow> string \<Rightarrow> rx" where
  "bare_equals_value col v = Seq WordB (equals_value col v)"

definition scope_col_of :: "query_validator \<Rightarrow> string \<Rightarrow> string \<Rightarrow> string option" where
  "scope_col_of V scope_col_global base =
     (case get_table_info (qv_schema V) base of
        None \<Rightarrow> None
      | Some info \<Rightarrow>
          (if t_scoped info
           then Some (lower (case t_scoping_column info of None \<Rightarrow> scope_col_global | Some c \<Rightarrow> c))
           else None))"

text \<open>The aliases of scoped tables, each with the scoping column of its table.\<close>

definition scoped_aliases :: "query_validator \<Rightarrow> glot \<Rightarrow> string \<Rightarrow> (string \<times> string) list" where
  "scoped_aliases V g scope_col_global =
     concat (map (\<lambda>(alias, base).
        (case scope_col_of V scope_col_global base of None \<Rightarrow> [] | Some c \<Rightarrow> [(alias, c)]))
       (alias_to_table g))"

definition missing_scopes :: "query_validator \<Rightarrow> glot \<Rightarrow> string \<Rightarrow> string \<Rightarrow> string list" where
  "missing_scopes V g scope_col_global v =
     (let pred_sql = lower (g_sql g)
      in map (\<lambda>(alias, c). alias @ ''.'' @ c)
           (filter (\<lambda>(alias, c).
                \<not> found False (alias_equals_value alias c v) pred_sql \<and>
                \<not> found False (bare_equals_value c v) pred_sql)
              (scoped_aliases V g scope_col_global)))"

datatype ast_result = AstUnavailable | AstValid | AstInvalid sql_error | AstOutsideModel

text \<open>
  \<open>_ast_validate\<close>. \<open>AstUnavailable\<close> is the result \<open>None\<close>, returned when sqlglot is
  missing or raises.
\<close>

definition ast_validate :: "query_validator \<Rightarrow> string \<Rightarrow> string option \<Rightarrow> user_context option
    \<Rightarrow> ast_result" where
  "ast_validate V sql scoping_value uc =
     (case sqlglot_parse_one (qv_libs V) sql of
        None \<Rightarrow> AstUnavailable
      | Some g \<Rightarrow>
          (case first_error (check_column V g) (g_columns g) of
             Some e \<Rightarrow> AstInvalid e
           | None \<Rightarrow>
               (let cfg = qv_config V;
                    scoping_required =
                      (case uc of None \<Rightarrow> True | Some u \<Rightarrow> fst (get_scoping_requirements cfg u));
                    scope_col_global =
                      (case uc of
                         None \<Rightarrow> cfg_scoping_column cfg
                       | Some u \<Rightarrow>
                           (if truthy (fst (snd (get_scoping_requirements cfg u)))
                            then fmt (fst (snd (get_scoping_requirements cfg u)))
                            else cfg_scoping_column cfg))
                in if scoping_required \<and> truthy scoping_value then
                     (if \<not> (plain (fmt scoping_value) \<and>
                            list_all (\<lambda>(alias, c). plain alias \<and> plain c)
                              (scoped_aliases V g scope_col_global))
                      then AstOutsideModel
                      else
                        (case missing_scopes V g scope_col_global (fmt scoping_value) of
                           [] \<Rightarrow> AstValid
                         | m # ms \<Rightarrow> AstInvalid (MissingScopingFilterOn (m # ms))))
                   else AstValid)))"

subsection \<open>validate\_sql\<close>

definition validate_sql :: "query_validator \<Rightarrow> string \<Rightarrow> string option \<Rightarrow> user_context option
    \<Rightarrow> sql_result" where
  "validate_sql V sql scoping_value uc =
     (case ast_validate V sql scoping_value uc of
        AstOutsideModel \<Rightarrow> OutsideModel
      | AstInvalid e \<Rightarrow> SqlInvalid e
      | ast_result \<Rightarrow>
          (case sqlparse_parse (qv_libs V) sql of
             [] \<Rightarrow> SqlInvalid InvalidSQLSyntax
           | statement # later_statements \<Rightarrow>
               (let cfg = qv_config V;
                    used_tables = enumerate_set (qv_libs V) (extract_tables statement);
                    scoped = filter (is_scoped_table V) used_tables;
                    scoping_required =
                      (case uc of None \<Rightarrow> True | Some u \<Rightarrow> fst (get_scoping_requirements cfg u));
                    scoping_column =
                      (case uc of
                         None \<Rightarrow> Some (cfg_scoping_column cfg)
                       | Some u \<Rightarrow> fst (snd (get_scoping_requirements cfg u)));
                    accessible =
                      (case uc of
                         None \<Rightarrow> (if truthy scoping_value then Some [fmt scoping_value] else None)
                       | Some u \<Rightarrow> snd (snd (get_scoping_requirements cfg u)))
                in if scoping_required \<and> scoped \<noteq> [] \<and>
                      \<not> scoping_plain V scoped scoping_value scoping_column accessible
                   then OutsideModel
                   else if \<not> joins_plain (qv_schema V) used_tables then OutsideModel
                   else
                     (case (if scoping_required \<and> scoped \<noteq> []
                            then validate_scoping_filtering_with_context V statement scoped
                                   scoping_value scoping_column accessible
                            else Inr (None, False)) of
                        Inl e \<Rightarrow> SqlInvalid e
                      | Inr (modified_sql, scoping_applied) \<Rightarrow>
                          (case perform_safety_checks statement of
                             Some e \<Rightarrow> SqlInvalid e
                           | None \<Rightarrow>
                               (case perform_custom_validation V statement used_tables of
                                  Some e \<Rightarrow> SqlInvalid e
                                | None \<Rightarrow>
                                    SqlValid
                                      \<lparr>ok_tables = used_tables, ok_scoped_tables = scoped,
                                       ok_modified_sql =
                                         (case modified_sql of None \<Rightarrow> sql | Some m \<Rightarrow> m),
                                       ok_scoping_applied = scoping_applied,
                                       ok_ast_used = (ast_result = AstValid)\<rparr>))))))"

section \<open>Example data and property predicates\<close>

text \<open>The built-in schema of \<open>_create_default_graph\<close>, with the paths networkx finds in it.\<close>

definition default_shortest_path :: "string \<Rightarrow> string \<Rightarrow> path_result" where
  "default_shortest_path a b =
     (if a \<notin> set [''shipments'', ''orders'', ''customers''] \<or>
         b \<notin> set [''shipments'', ''orders'', ''customers''] then NodeNotFound
      else if a = b then Path [a]
      else if a = ''shipments'' \<and> b = ''orders'' then Path [''shipments'', ''orders'']
      else if a = ''shipments'' \<and> b = ''customers''
        then Path [''shipments'', ''orders'', ''customers'']
      else if a = ''orders'' \<and> b = ''customers'' then Path [''orders'', ''customers'']
      else NoPath)"

definition default_graph :: schema_graph where
  "default_graph =
     \<lparr>tables =
        [(''shipments'',
          \<lparr>t_columns = [''id'', ''status'', ''created_at'', ''accounts_entity_id'', ''order_id''],
           t_description = Some ''Shipment tracking information'', t_scoped = False,
           t_scoping_column = Some ''accounts_entity_id''\<rparr>),
         (''orders'',
          \<lparr>t_columns = [''id'', ''customer_id'', ''total'', ''accounts_entity_id'', ''created_at''],
           t_description = Some ''Customer orders'', t_scoped = False,
           t_scoping_column = Some ''accounts_entity_id''\<rparr>),
         (''customers'',
          \<lparr>t_columns = [''id'', ''name'', ''phone'', ''accounts_entity_id'', ''email''],
           t_description = Some ''Customer information'', t_scoped = False,
           t_scoping_column = Some ''accounts_entity_id''\<rparr>)],
      relationships =
        [\<lparr>rel_from = ''shipments'', rel_to = ''orders'', rel_on = ''order_id'',
          rel_to_column = None\<rparr>,
         \<lparr>rel_from = ''orders'', rel_to = ''customers'', rel_on = ''customer_id'',
          rel_to_column = None\<rparr>],
      shortest_path = default_shortest_path,
      set_order = (\<lambda>xs. xs)\<rparr>"


definition columns_ok :: "schema_graph \<Rightarrow> (string \<rightharpoonup> string list) \<Rightarrow> bool" where
  "columns_ok G m \<longleftrightarrow>
     (\<forall>t cols. m t = Some cols \<longrightarrow>
        (\<exists>info. get_table_info G t = Some info \<and> set cols \<subseteq> set (t_columns info)))"

definition backed :: "schema_graph \<Rightarrow> join_step \<Rightarrow> bool" where
  "backed G j \<longleftrightarrow>
     (\<exists>r \<in> set (relationships G). rel_from r = js_from_table j \<and> rel_to r = js_to_table j \<and>
        rel_on r = js_join_column j \<and> rel_target_column r = js_to_column j)"




text \<open>A plan without the keys \<open>tables\<close> and \<open>limit\<close>.\<close>

definition partial_plan :: plan where
  "partial_plan =
     \<lparr>p_tables = None, p_columns = Some Map.empty,
      p_joins = Some [], p_filters = Some [], p_group_by = Some [], p_order_by = Some [],
      p_limit = None, p_needs_scoping = Some True\<rparr>"

text \<open>A plan for a count question that nevertheless selects columns, groups and limits.\<close>

definition count_plan :: plan where
  "count_plan =
     \<lparr>p_tables = Some [''shipments''],
      p_columns = Some [''shipments'' \<mapsto> [''id'', ''status'']],
      p_joins = Some [], p_filters = Some [''status = 1900''], p_group_by = Some [''status''],
      p_order_by = Some [], p_limit = Some (Some 5), p_needs_scoping = Some False\<rparr>"

text \<open>A plan for a list question with a time window; one of its columns does not exist.\<close>

definition browse_plan :: plan where
  "browse_plan =
     \<lparr>p_tables = Some [''customers'', ''orders''],
      p_columns = Some [''customers'' \<mapsto> [''bogus''], ''orders'' \<mapsto> [''total'']],
      p_joins = Some [], p_filters = Some [], p_group_by = Some [], p_order_by = Some [],
      p_limit = Some None, p_needs_scoping = Some False\<rparr>"

text \<open>
  The built-in schema with \<open>shipments\<close> marked as scoped on \<open>accounts_entity_id\<close>, the
  security settings at their defaults, and a validator on them.
\<close>

definition scoped_graph :: schema_graph where
  "scoped_graph =
     \<lparr>tables =
        [(''shipments'',
          \<lparr>t_columns = [''id'', ''status'', ''created_at'', ''accounts_entity_id'', ''order_id''],
           t_description = Some ''Shipment tracking information'', t_scoped = True,
           t_scoping_column = Some ''accounts_entity_id''\<rparr>),
         (''orders'',
          \<lparr>t_columns = [''id'', ''customer_id'', ''total'', ''accounts_entity_id'', ''created_at''],
           t_description = Some ''Customer orders'', t_scoped = False,
           t_scoping_column = Some ''accounts_entity_id''\<rparr>),
         (''customers'',
          \<lparr>t_columns = [''id'', ''name'', ''phone'', ''accounts_entity_id'', ''email''],
           t_description = Some ''Customer information'', t_scoped = False,
           t_scoping_column = Some ''accounts_entity_id''\<rparr>)],
      relationships =
        [\<lparr>rel_from = ''shipments'', rel_to = ''orders'', rel_on = ''order_id'',
          rel_to_column = None\<rparr>,
         \<lparr>rel_from = ''orders'', rel_to = ''customers'', rel_on = ''customer_id'',
          rel_to_column = None\<rparr>],
      shortest_path = default_shortest_path,
      set_order = (\<lambda>xs. xs)\<rparr>"

definition default_config :: security_config where
  "default_config =
     \<lparr>cfg_scoping_column = ''accounts_entity_id'', cfg_enable_auto_scoping = True,
      cfg_max_tables = None, cfg_allowed_operations = [''SELECT'']\<rparr>"

definition validator :: "bool \<Rightarrow> sql_libs \<Rightarrow> query_validator" where
  "validator auto_scoping L =
     \<lparr>qv_schema = scoped_graph,
      qv_config = default_config\<lparr>cfg_enable_auto_scoping := auto_scoping\<rparr>,
      qv_libs = L\<rparr>"

text \<open>
  Libraries for a text that is one statement, on a machine without sqlglot: \<open>sqlparse\<close>
  returns the text as its only statement.
\<close>

definition single_statement_libs :: sql_libs where
  "single_statement_libs =
     \<lparr>sqlparse_parse = (\<lambda>s. [s]), sqlglot_parse_one = (\<lambda>s. None),
      enumerate_set = (\<lambda>xs. xs)\<rparr>"

text \<open>The SQL texts of the scoping example: the query, its repair, and the repair of the repair.\<close>

definition count_sql :: string where
  "count_sql = ''SELECT COUNT(*) FROM shipments''"

definition count_sql_repaired :: string where
  "count_sql_repaired =
     ''SELECT COUNT(*) FROM shipments WHERE accounts_entity_id = '' @ [CHR 0x27] @ ''E100'' @
     [CHR 0x27] @ '';''"

definition count_sql_repaired_twice :: string where
  "count_sql_repaired_twice =
     ''SELECT COUNT(*) FROM shipments WHERE AND (accounts_entity_id = '' @ [CHR 0x27] @ ''E100'' @
     [CHR 0x27] @ '') accounts_entity_id = '' @ [CHR 0x27] @ ''E100'' @ [CHR 0x27] @ '';''"

text \<open>
  A reading of the statement splitter of sqlparse for texts without string literals,
  comments or blocks: a statement ends at a semicolon, and the blanks that follow the
  semicolon still belong to it. It serves as the library in the examples with two statements.
\<close>

definition is_blank :: "char \<Rightarrow> bool" where
  "is_blank c \<longleftrightarrow> c = CHR '' '' \<or> c = CHR 0x09"

fun split_statements :: "bool \<Rightarrow> string \<Rightarrow> string \<Rightarrow> string list" where
  "split_statements consume_ws cur [] = (if list_all is_space cur then [] else [rev cur])"
| "split_statements consume_ws cur (c # cs) =
     (if consume_ws \<and> \<not> is_blank c
      then rev cur # split_statements (c = CHR '';'') [c] cs
      else split_statements (consume_ws \<or> c = CHR '';'') (c # cur) cs)"

definition splitting_libs :: sql_libs where
  "splitting_libs =
     \<lparr>sqlparse_parse = split_statements False [], sqlglot_parse_one = (\<lambda>s. None),
      enumerate_set = (\<lambda>xs. xs)\<rparr>"

text \<open>The two-statement text, and its first statement with and without the blank after it.\<close>

definition injection_sql :: string where
  "injection_sql = ''SELECT * FROM shipments; DROP TABLE shipments;''"

definition first_statement :: string where
  "first_statement = ''SELECT * FROM shipments;''"

definition first_statement_blank :: string where
  "first_statement_blank = ''SELECT * FROM shipments; ''"

definition first_statement_repaired :: string where
  "first_statement_repaired =
     ''SELECT * FROM shipments WHERE accounts_entity_id = '' @ [CHR 0x27] @ ''E100'' @
     [CHR 0x27] @ '';''"

definition first_statement_blank_repaired :: string where
  "first_statement_blank_repaired =
     ''SELECT * FROM shipments;  WHERE accounts_entity_id = '' @ [CHR 0x27] @ ''E100'' @
     [CHR 0x27] @ '';''"

definition updates_sql :: string where
  "updates_sql = ''SELECT * FROM updates''"

section \<open>Verification\<close>

subsection \<open>Evaluating case conversion\<close>

text \<open>The two conversion tables, unfolded once.\<close>

lemma lower_char_if:
  "lower_char c =
     (if c = CHR ''A'' then CHR ''a'' else if c = CHR ''B'' then CHR ''b'' else if c = CHR ''C'' then CHR ''c'' else 
      if c = CHR ''D'' then CHR ''d'' else if c = CHR ''E'' then CHR ''e'' else if c = CHR ''F'' then CHR ''f'' else 
      if c = CHR ''G'' then CHR ''g'' else if c = CHR ''H'' then CHR ''h'' else if c = CHR ''I'' then CHR ''i'' else 
      if c = CHR ''J'' then CHR ''j'' else if c = CHR ''K'' then CHR ''k'' else if c = CHR ''L'' then CHR ''l'' else 
      if c = CHR ''M'' then CHR ''m'' else if c = CHR ''N'' then CHR ''n'' else if c = CHR ''O'' then CHR ''o'' else 
      if c = CHR ''P'' then CHR ''p'' else if c = CHR ''Q'' then CHR ''q'' else if c = CHR ''R'' then CHR ''r'' else 
      if c = CHR ''S'' then CHR ''s'' else if c = CHR ''T'' then CHR ''t'' else if c = CHR ''U'' then CHR ''u'' else 
      if c = CHR ''V'' then CHR ''v'' else if c = CHR ''W'' then CHR ''w'' else if c = CHR ''X'' then CHR ''x'' else 
      if c = CHR ''Y'' then CHR ''y'' else if c = CHR ''Z'' then CHR ''z'' else c)"
  by (simp add: lower_char_def)

lemma upper_char_if:
  "upper_char c =
     (if c = CHR ''a'' then CHR ''A'' else if c = CHR ''b'' then CHR ''B'' else if c = CHR ''c'' then CHR ''C'' else 
      if c = CHR ''d'' then CHR ''D'' else if c = CHR ''e'' then CHR ''E'' else if c = CHR ''f'' then CHR ''F'' else 
      if c = CHR ''g'' then CHR ''G'' else if c = CHR ''h'' then CHR ''H'' else if c = CHR ''i'' then CHR ''I'' else 
      if c = CHR ''j'' then CHR ''J'' else if c = CHR ''k'' then CHR ''K'' else if c = CHR ''l'' then CHR ''L'' else 
      if c = CHR ''m'' then CHR ''M'' else if c = CHR ''n'' then CHR ''N'' else if c = CHR ''o'' then CHR ''O'' else 
      if c = CHR ''p'' then CHR ''P'' else if c = CHR ''q'' then CHR ''Q'' else if c = CHR ''r'' then CHR ''R'' else 
      if c = CHR ''s'' then CHR ''S'' else if c = CHR ''t'' then CHR ''T'' else if c = CHR ''u'' then CHR ''U'' else 
      if c = CHR ''v'' then CHR ''V'' else if c = CHR ''w'' then CHR ''W'' else if c = CHR ''x'' then CHR ''X'' else 
      if c = CHR ''y'' then CHR ''Y'' else if c = CHR ''z'' then CHR ''Z'' else c)"
  by (simp add: upper_char_def)

lemmas case_eval = lower_def upper_def lower_char_if upper_char_if

subsection \<open>The plan validator\<close>

lemma table_names_iff: "t \<in> set (table_names G) \<longleftrightarrow> get_table_info G t \<noteq> None"
  by (simp add: table_names_def get_table_info_def map_of_eq_None_iff)

lemma columns_ok_empty: "columns_ok G Map.empty"
  by (simp add: columns_ok_def)

lemma columns_ok_upd:
  assumes "columns_ok G m" "get_table_info G t = Some info" "set cs \<subseteq> set (t_columns info)"
  shows "columns_ok G (m(t \<mapsto> cs))"
  using assms by (auto simp: columns_ok_def)

lemma validate_columns_loop_ok:
  "columns_ok G acc \<Longrightarrow> columns_ok G (validate_columns_loop G cd ts acc)"
proof (induction ts arbitrary: acc)
  case Nil
  then show ?case by simp
next
  case (Cons t ts)
  show ?case
  proof (cases "get_table_info G t")
    case None
    then show ?thesis using Cons by simp
  next
    case (Some info)
    have "columns_ok G (acc(t \<mapsto> filter (\<lambda>col. col \<in> set (t_columns info))
            (case cd t of None \<Rightarrow> [] | Some cs \<Rightarrow> cs)))"
      by (rule columns_ok_upd [OF Cons.prems Some]) auto
    then show ?thesis using Some Cons.IH by (simp add: Let_def)
  qed
qed

lemma validate_columns_ok: "columns_ok G (validate_columns G cd ts)"
  by (simp add: validate_columns_def validate_columns_loop_ok columns_ok_empty)

lemma current_cols_ok:
  assumes "columns_ok G m" "get_table_info G t = Some info"
  shows "set (case m t of None \<Rightarrow> [] | Some cs \<Rightarrow> cs) \<subseteq> set (t_columns info)"
proof (cases "m t")
  case None
  then show ?thesis by simp
next
  case (Some cs)
  with assms(1) obtain info' where "get_table_info G t = Some info'"
    "set cs \<subseteq> set (t_columns info')"
    unfolding columns_ok_def by blast
  with assms(2) Some show ?thesis by simp
qed

lemma display_step_ok:
  assumes "columns_ok G m" "get_table_info G t = Some info"
  shows "columns_ok G (display_step G t m)"
proof -
  have cur: "set (case m t of None \<Rightarrow> [] | Some cs \<Rightarrow> cs) \<subseteq> set (t_columns info)"
    by (rule current_cols_ok [OF assms])
  have col: "columns_of G t = t_columns info"
    using assms(2) by (simp add: columns_of_def)
  have disp: "set (take 2 (display_columns (t_columns info))) \<subseteq> set (t_columns info)"
    by (auto simp: display_columns_def dest: in_set_takeD)
  show ?thesis
    unfolding display_step_def Let_def col
    by (rule columns_ok_upd [OF assms]) (use cur disp in \<open>auto simp: append_missing_def\<close>)
qed

lemma time_step_ok:
  assumes "columns_ok G m" "get_table_info G t = Some info"
  shows "columns_ok G (time_step G t m)"
proof -
  have cur: "set (case m t of None \<Rightarrow> [] | Some cs \<Rightarrow> cs) \<subseteq> set (t_columns info)"
    by (rule current_cols_ok [OF assms])
  have col: "columns_of G t = t_columns info"
    using assms(2) by (simp add: columns_of_def)
  have tc: "set (time_columns (t_columns info)) \<subseteq> set (t_columns info)"
    by (auto simp: time_columns_def)
  show ?thesis
  proof (cases "time_columns (t_columns info)")
    case Nil
    then show ?thesis
      unfolding time_step_def Let_def col
      using columns_ok_upd [OF assms cur] by simp
  next
    case (Cons c cs)
    then have "c \<in> set (t_columns info)" using tc by auto
    then have "columns_ok G (m(t \<mapsto> (case m t of None \<Rightarrow> [] | Some cs \<Rightarrow> cs) @ [c]))"
      using cur by (intro columns_ok_upd [OF assms]) auto
    then show ?thesis
      unfolding time_step_def Let_def col
      using Cons columns_ok_upd [OF assms cur] by simp
  qed
qed

lemma foldl_step_ok:
  assumes step: "\<And>m t info. columns_ok G m \<Longrightarrow> get_table_info G t = Some info \<Longrightarrow> columns_ok G (f m t)"
  shows "columns_ok G m \<Longrightarrow> \<forall>t \<in> set ts. get_table_info G t \<noteq> None \<Longrightarrow> columns_ok G (foldl f m ts)"
proof (induction ts arbitrary: m)
  case Nil
  then show ?case by simp
next
  case (Cons t ts)
  then obtain info where "get_table_info G t = Some info" by auto
  then have "columns_ok G (f m t)" using step Cons.prems(1) by blast
  then show ?case using Cons by simp
qed

lemma apply_intent_repairs_ok:
  assumes "columns_ok G (plan_columns p)" "\<forall>t \<in> set (plan_tables p). get_table_info G t \<noteq> None"
  shows "columns_ok G (plan_columns (apply_intent_repairs G p q))"
proof -
  have d: "columns_ok G (plan_columns (ensure_display_columns G p))"
    unfolding ensure_display_columns_def plan_columns_def
    using foldl_step_ok [of G "\<lambda>cols t. display_step G t cols", OF display_step_ok] assms
    by (simp add: plan_columns_def)
  have t: "columns_ok G (plan_columns (ensure_time_columns G p'))"
    if "columns_ok G (plan_columns p')" "plan_tables p' = plan_tables p" for p'
    unfolding ensure_time_columns_def
    using foldl_step_ok [of G "\<lambda>cols t. time_step G t cols", OF time_step_ok] assms that
    by (simp add: plan_columns_def)
  have dt: "plan_tables (ensure_display_columns G p) = plan_tables p"
    by (simp add: ensure_display_columns_def plan_tables_def)
  show ?thesis
    unfolding apply_intent_repairs_def Let_def
    using d t [OF d dt] t [OF assms(1) refl] assms(1)
    by (auto simp: plan_columns_def columns_ok_def)
qed

lemma plan_columns_upd [simp]:
  "plan_columns (p\<lparr>p_columns := Some m\<rparr>) = m"
  "plan_columns (p\<lparr>p_joins := js\<rparr>) = plan_columns p"
  "plan_columns (p\<lparr>p_needs_scoping := n\<rparr>) = plan_columns p"
  "plan_columns (p\<lparr>p_tables := ts\<rparr>) = plan_columns p"
  by (simp_all add: plan_columns_def)

lemma plan_tables_upd [simp]:
  "plan_tables (p\<lparr>p_tables := Some ts\<rparr>) = ts"
  "plan_tables (p\<lparr>p_columns := c\<rparr>) = plan_tables p"
  "plan_tables (p\<lparr>p_joins := js\<rparr>) = plan_tables p"
  "plan_tables (p\<lparr>p_needs_scoping := n\<rparr>) = plan_tables p"
  by (simp_all add: plan_tables_def)



lemma repair_plan_columns_ok:
  assumes "\<forall>t \<in> set (plan_tables p). get_table_info G t \<noteq> None"
  shows "columns_ok G (plan_columns (repair_plan G p q))"
  unfolding repair_plan_def Let_def
  by (rule apply_intent_repairs_ok)
     (use assms in \<open>simp_all add: plan_columns_def plan_tables_def validate_columns_ok\<close>)

lemma set_fromkeys: "set (fromkeys seen xs) = set xs - set seen"
  by (induction seen xs rule: fromkeys.induct) auto

lemma set_dict_fromkeys: "set (dict_fromkeys xs) = set xs"
  by (simp add: dict_fromkeys_def set_fromkeys)

text \<open>The two ways in which \<open>validate_plan\<close> accepts a plan.\<close>

lemma validate_plan_dict_Valid:
  assumes "validate_plan_dict G p0 q = Valid p'"
  obtains p where "p' = repair_plan G p q"
    and "missing_fields p0 = []"
    and "set (plan_tables p) =
           (if set (plan_tables (synthesize_join_bridges G p0)) \<subseteq> set (table_names G)
            then set (plan_tables (synthesize_join_bridges G p0))
            else set (set_order G (filter (\<lambda>t. t \<in> set (table_names G))
                   (dict_fromkeys (plan_tables (synthesize_join_bridges G p0))))))"
proof -
  let ?b = "synthesize_join_bridges G p0"
  let ?inv = "filter (\<lambda>t. t \<notin> set (table_names G)) (dict_fromkeys (plan_tables ?b))"
  have inv: "?inv = [] \<longleftrightarrow> set (plan_tables ?b) \<subseteq> set (table_names G)"
    by (auto simp: filter_empty_conv set_dict_fromkeys)
  from assms have mf: "missing_fields p0 = []"
    by (auto simp: validate_plan_dict_def split: if_splits)
  show ?thesis
  proof (cases "?inv = []")
    case True
    with assms mf have "p' = repair_plan G ?b q"
      by (simp add: validate_plan_dict_def Let_def)
    then show ?thesis using that [of ?b] mf True inv by simp
  next
    case False
    let ?kept = "set_order G (filter (\<lambda>t. t \<in> set (table_names G)) (dict_fromkeys (plan_tables ?b)))"
    from assms mf False have "p' = repair_plan G (?b\<lparr>p_tables := Some ?kept\<rparr>) q"
      by (simp add: validate_plan_dict_def Let_def split: if_splits)
    then show ?thesis using that [of "?b\<lparr>p_tables := Some ?kept\<rparr>"] mf False inv
      by (simp add: plan_tables_def)
  qed
qed

subsection \<open>The join-path solver\<close>

lemma path_joins_backed:
  "j \<in> set (path_joins G p) \<Longrightarrow> backed G j"
proof (induction G p rule: path_joins.induct)
  case (1 G a b rest)
  show ?case
  proof (cases "find_relationship G a b")
    case None
    with 1 show ?thesis by simp
  next
    case (Some r)
    then have r: "r \<in> set (relationships G)" "rel_from r = a" "rel_to r = b"
      by (auto simp: find_relationship_def find_Some_iff)
    from "1.prems" Some consider
      "j = \<lparr>js_from_table = a, js_to_table = b, js_join_column = rel_on r,
            js_to_column = rel_target_column r\<rparr>" | "j \<in> set (path_joins G (b # rest))"
      by auto
    then show ?thesis
    proof cases
      case 1
      with r show ?thesis by (auto simp: backed_def)
    next
      case 2
      with "1.IH"(2) Some show ?thesis by simp
    qed
  qed
qed simp_all

lemma join_path_loop_backed:
  "join_path_loop G ts connected acc = Inr joins \<Longrightarrow> \<forall>j \<in> set acc. backed G j \<Longrightarrow>
   \<forall>j \<in> set joins. backed G j"
proof (induction ts arbitrary: connected acc)
  case Nil
  then show ?case by simp
next
  case (Cons t ts)
  show ?case
  proof (cases "best_path G t (set_order G connected) None")
    case (Inl e)
    with Cons.prems show ?thesis by simp
  next
    case (Inr best)
    show ?thesis
    proof (cases best)
      case None
      with Inr Cons show ?thesis by simp
    next
      case (Some p)
      have "\<forall>j \<in> set (acc @ path_joins G p). backed G j"
        using Cons.prems(2) path_joins_backed [of _ G p] by auto
      with Cons.IH Cons.prems(1) Inr Some show ?thesis by simp
    qed
  qed
qed

text \<open>
  C3. Whatever path the shortest-path search returns and in whatever order the connected set
  is enumerated, every join step that \<open>get_join_path\<close> returns has a declared relationship
  with the same source table, target table and join column (and target column).
\<close>

theorem join_path_backed_by_relationship:
  assumes "get_join_path G tbls = Inr joins" and "j \<in> set joins"
  shows "\<exists>r \<in> set (relationships G).
           rel_from r = js_from_table j \<and> rel_to r = js_to_table j \<and>
           rel_on r = js_join_column j \<and> rel_target_column r = js_to_column j"
proof -
  have "\<forall>j \<in> set joins. backed G j"
  proof (cases tbls)
    case Nil
    with assms(1) show ?thesis by (simp add: get_join_path_def)
  next
    case (Cons t rest)
    show ?thesis
    proof (cases rest)
      case Nil
      with Cons assms(1) show ?thesis by (simp add: get_join_path_def)
    next
      case (Cons t' rest')
      with \<open>tbls = t # rest\<close> assms(1) have "join_path_loop G rest [t] [] = Inr joins"
        by (simp add: get_join_path_def)
      then show ?thesis by (rule join_path_loop_backed) simp
    qed
  qed
  with assms(2) show ?thesis by (simp add: backed_def)
qed

theorem join_path_backed_by_relationship_witness:
  "get_join_path default_graph [''shipments'', ''customers''] =
     Inr [\<lparr>js_from_table = ''shipments'', js_to_table = ''orders'', js_join_column = ''order_id'',
           js_to_column = ''id''\<rparr>,
          \<lparr>js_from_table = ''orders'', js_to_table = ''customers'',
           js_join_column = ''customer_id'', js_to_column = ''id''\<rparr>]
   \<and> (\<exists>r \<in> set (relationships default_graph).
         rel_from r = ''orders'' \<and> rel_to r = ''customers'' \<and> rel_on r = ''customer_id'' \<and>
         rel_target_column r = ''id'')"
proof -
  let ?j1 = "\<lparr>js_from_table = ''shipments'', js_to_table = ''orders'', js_join_column = ''order_id'',
           js_to_column = ''id''\<rparr>"
  let ?j2 = "\<lparr>js_from_table = ''orders'', js_to_table = ''customers'',
           js_join_column = ''customer_id'', js_to_column = ''id''\<rparr>"
  have run: "get_join_path default_graph [''shipments'', ''customers''] = Inr [?j1, ?j2]"
    by (simp add: get_join_path_def default_graph_def default_shortest_path_def
        find_path_between_tables_def find_relationship_def rel_target_column_def)
  have mem: "?j2 \<in> set [?j1, ?j2]" by simp
  from join_path_backed_by_relationship [OF run mem] run show ?thesis by simp
qed

subsection \<open>Table repair\<close>


lemma bridge_short: "length (plan_tables p) < 2 \<Longrightarrow> synthesize_join_bridges G p = p"
  by (auto simp: synthesize_join_bridges_def split: list.splits)




subsection \<open>Required fields\<close>

lemma distinct_missing_fields: "distinct (missing_fields p)"
  by (simp add: missing_fields_def required_fields_def)

text \<open>
  C5. A parsed plan that lacks at least one of the eight required keys is rejected, and the
  error lists the required keys that are absent: each of them once, and no other name.
\<close>

theorem missing_fields_rejected:
  assumes "json_loads (extract_json_object plan_json) = Some p"
    and "\<exists>f \<in> set required_fields. \<not> has_field p f"
  shows "validate_plan G json_loads plan_json q = Invalid (MissingRequiredFields (missing_fields p))
       \<and> set (missing_fields p) = {f \<in> set required_fields. \<not> has_field p f}
       \<and> distinct (missing_fields p)
       \<and> error_message (MissingRequiredFields (missing_fields p)) =
           ''Missing required fields: '' @ repr_list (missing_fields p)"
proof -
  from assms(2) have "missing_fields p \<noteq> []"
    by (auto simp: missing_fields_def filter_empty_conv)
  with assms(1) have "validate_plan G json_loads plan_json q =
      Invalid (MissingRequiredFields (missing_fields p))"
    by (simp add: validate_plan_def validate_plan_dict_def)
  moreover have "set (missing_fields p) = {f \<in> set required_fields. \<not> has_field p f}"
    by (auto simp: missing_fields_def)
  ultimately show ?thesis by (simp add: distinct_missing_fields)
qed

theorem missing_fields_rejected_witness:
  "(\<lambda>s. Some partial_plan) (extract_json_object ''{}'') = Some partial_plan
   \<and> (\<exists>f \<in> set required_fields. \<not> has_field partial_plan f)
   \<and> validate_plan default_graph (\<lambda>s. Some partial_plan) ''{}'' ''show orders'' =
       Invalid (MissingRequiredFields [''tables'', ''limit''])
   \<and> error_message (MissingRequiredFields [''tables'', ''limit'']) =
       ''Missing required fields: ['' @ [CHR 0x27] @ ''tables'' @ [CHR 0x27] @ '', '' @
       [CHR 0x27] @ ''limit'' @ [CHR 0x27] @ '']''"
proof -
  have h1: "(\<lambda>s. Some partial_plan) (extract_json_object ''{}'') = Some partial_plan"
    by simp
  have mf: "missing_fields partial_plan = [''tables'', ''limit'']"
    by (simp add: missing_fields_def required_fields_def has_field_def partial_plan_def)
  have h2: "\<exists>f \<in> set required_fields. \<not> has_field partial_plan f"
    by (simp add: required_fields_def has_field_def partial_plan_def)
  from missing_fields_rejected [where json_loads = "\<lambda>s. Some partial_plan"
      and plan_json = "''{}''" and p = partial_plan and G = default_graph
      and q = "''show orders''", OF h1 h2] h1 h2
  show ?thesis by (simp add: mf repr_list_def)
qed

subsection \<open>Intent repair\<close>

text \<open>
  C7. When the question has count intent (it contains one of \<open>how many\<close>, \<open>count\<close>,
  \<open>number of\<close>, \<open>total\<close>, in any letter case), every plan that \<open>validate_plan\<close> accepts
  has an empty columns dictionary, an empty \<open>group_by\<close> and the limit \<open>null\<close>, whatever the
  input plan held there.
\<close>

theorem count_intent_clears_projection:
  assumes "validate_plan G json_loads plan_json user_query = Valid p'"
    and "is_count_intent user_query"
  shows "p_columns p' = Some Map.empty \<and> p_group_by p' = Some [] \<and> p_limit p' = Some None"
proof -
  from assms(1) obtain p0 where "validate_plan_dict G p0 user_query = Valid p'"
    by (auto simp: validate_plan_def split: option.splits)
  then obtain p where "p' = repair_plan G p user_query"
    by (rule validate_plan_dict_Valid)
  with assms(2) show ?thesis
    by (simp add: repair_plan_def apply_intent_repairs_def Let_def)
qed

theorem count_intent_clears_projection_witness:
  "is_count_intent ''how many shipments are delivered''
   \<and> (\<exists>p'. validate_plan default_graph (\<lambda>s. Some count_plan) ''{}''
            ''how many shipments are delivered'' = Valid p'
          \<and> p_columns p' = Some Map.empty \<and> p_group_by p' = Some [] \<and> p_limit p' = Some None)
   \<and> p_columns count_plan \<noteq> Some Map.empty \<and> p_group_by count_plan \<noteq> Some []
   \<and> p_limit count_plan \<noteq> Some None"
proof -
  have ic: "is_count_intent ''how many shipments are delivered''"
    by (simp add: is_count_intent_def any_word_in_def case_eval)
  have names: "table_names default_graph = [''shipments'', ''orders'', ''customers'']"
    by (simp add: table_names_def default_graph_def)
  have mf: "missing_fields count_plan = []"
    by (simp add: missing_fields_def required_fields_def has_field_def count_plan_def)
  have tabs: "plan_tables count_plan = [''shipments'']"
    by (simp add: plan_tables_def count_plan_def)
  have bridged: "synthesize_join_bridges default_graph count_plan = count_plan"
    by (rule bridge_short) (simp add: tabs)
  have v: "validate_plan default_graph (\<lambda>s. Some count_plan) ''{}''
      ''how many shipments are delivered'' =
      Valid (repair_plan default_graph count_plan ''how many shipments are delivered'')"
    by (simp add: validate_plan_def validate_plan_dict_def mf bridged tabs names
        dict_fromkeys_def)
  have was: "p_columns count_plan \<noteq> Some Map.empty \<and> p_group_by count_plan \<noteq> Some []
      \<and> p_limit count_plan \<noteq> Some None"
    by (auto simp: count_plan_def dest: fun_cong [where x = "''shipments''"])
  from count_intent_clears_projection [OF v ic] v ic was show ?thesis by simp
qed

text \<open>
  C10. In every plan that \<open>validate_plan\<close> accepts, each table of the columns dictionary is a
  schema table and each column listed under it is one of that table's declared columns. The
  display and time columns that the intent repair adds after the column pruning keep this,
  provided that enumerating a set yields exactly its elements.
\<close>

theorem repaired_columns_in_schema:
  assumes "validate_plan G json_loads plan_json user_query = Valid p'"
    and "\<forall>xs. set (set_order G xs) = set xs"
    and "plan_columns p' t = Some cols"
  shows "\<exists>info. get_table_info G t = Some info \<and> set cols \<subseteq> set (t_columns info)"
proof -
  from assms(1) obtain p0 where "validate_plan_dict G p0 user_query = Valid p'"
    by (auto simp: validate_plan_def split: option.splits)
  then obtain p where p: "p' = repair_plan G p user_query"
    and tabs: "set (plan_tables p) =
           (if set (plan_tables (synthesize_join_bridges G p0)) \<subseteq> set (table_names G)
            then set (plan_tables (synthesize_join_bridges G p0))
            else set (set_order G (filter (\<lambda>t. t \<in> set (table_names G))
                   (dict_fromkeys (plan_tables (synthesize_join_bridges G p0))))))"
    by (rule validate_plan_dict_Valid)
  from tabs assms(2) have "set (plan_tables p) \<subseteq> set (table_names G)"
    by (auto split: if_splits)
  then have "\<forall>t \<in> set (plan_tables p). get_table_info G t \<noteq> None"
    by (auto simp: table_names_iff)
  then have "columns_ok G (plan_columns p')"
    unfolding p by (rule repair_plan_columns_ok)
  with assms(3) show ?thesis by (simp add: columns_ok_def)
qed


theorem repaired_columns_in_schema_witness:
  "validate_plan default_graph (\<lambda>s. Some browse_plan) ''{}'' ''list orders this month'' =
     Valid (repair_plan default_graph browse_plan ''list orders this month'')
   \<and> (\<forall>xs. set (set_order default_graph xs) = set xs)
   \<and> plan_columns (repair_plan default_graph browse_plan ''list orders this month'') ''orders'' =
       Some [''total'', ''created_at'']
   \<and> (\<exists>info. get_table_info default_graph ''orders'' = Some info \<and>
         set [''total'', ''created_at''] \<subseteq> set (t_columns info))"
proof -
  let ?q = "''list orders this month''"
  have names: "table_names default_graph = [''shipments'', ''orders'', ''customers'']"
    by (simp add: table_names_def default_graph_def)
  have mf: "missing_fields browse_plan = []"
    by (simp add: missing_fields_def required_fields_def has_field_def browse_plan_def)
  have tabs: "plan_tables browse_plan = [''customers'', ''orders'']"
    by (simp add: plan_tables_def browse_plan_def)
  have bridged: "synthesize_join_bridges default_graph browse_plan = browse_plan"
    by (simp add: synthesize_join_bridges_def plan_tables_def plan_joins_def browse_plan_def
        find_path_between_tables_def default_graph_def default_shortest_path_def
        implied_tables_def)
  have v: "validate_plan default_graph (\<lambda>s. Some browse_plan) ''{}'' ?q =
      Valid (repair_plan default_graph browse_plan ?q)"
    by (simp add: validate_plan_def validate_plan_dict_def mf bridged tabs names
        dict_fromkeys_def)
  have order: "\<forall>xs. set (set_order default_graph xs) = set xs"
    by (simp add: default_graph_def)
  have lq: "lower ?q = ?q"
    by (simp add: case_eval)
  have intents: "\<not> is_count_intent ?q" "is_list_intent ?q" "is_time_intent ?q"
    by (simp_all add: is_count_intent_def is_list_intent_def is_time_intent_def any_word_in_def lq)
  have ccols: "columns_of default_graph ''customers'' =
      [''id'', ''name'', ''phone'', ''accounts_entity_id'', ''email'']"
    and ocols: "columns_of default_graph ''orders'' =
      [''id'', ''customer_id'', ''total'', ''accounts_entity_id'', ''created_at'']"
    by (simp_all add: columns_of_def get_table_info_def default_graph_def)
  have lc: "map lower [''id'', ''name'', ''phone'', ''accounts_entity_id'', ''email''] =
      [''id'', ''name'', ''phone'', ''accounts_entity_id'', ''email'']"
    and lo: "map lower [''id'', ''customer_id'', ''total'', ''accounts_entity_id'', ''created_at''] =
      [''id'', ''customer_id'', ''total'', ''accounts_entity_id'', ''created_at'']"
    by (simp_all add: case_eval)
  have dc: "display_columns [''id'', ''name'', ''phone'', ''accounts_entity_id'', ''email''] =
      [''name'']"
    using lc by (simp add: display_columns_def any_word_in_def)
  have "display_columns [''id'', ''customer_id'', ''total'', ''accounts_entity_id'', ''created_at''] = []"
    using lo by (simp add: display_columns_def any_word_in_def)
  note dcs = dc this
  have tc: "time_columns [''id'', ''name'', ''phone'', ''accounts_entity_id'', ''email''] = []"
    using lc by (simp add: time_columns_def)
  have "time_columns [''id'', ''customer_id'', ''total'', ''accounts_entity_id'', ''created_at''] =
      [''created_at'']"
    using lo by (simp add: time_columns_def)
  note tcs = tc this
  have pruned: "validate_columns default_graph (plan_columns browse_plan) [''customers'', ''orders''] =
      [''customers'' \<mapsto> [], ''orders'' \<mapsto> [''total'']]"
    by (simp add: validate_columns_def get_table_info_def default_graph_def plan_columns_def
        browse_plan_def)
  have shown: "display_step default_graph ''orders'' (display_step default_graph ''customers''
        [''customers'' \<mapsto> [], ''orders'' \<mapsto> [''total'']]) =
      [''customers'' \<mapsto> [''name''], ''orders'' \<mapsto> [''total'']]"
    by (simp add: display_step_def ccols ocols dcs append_missing_def fun_upd_twist)
  have timed: "time_step default_graph ''orders'' (time_step default_graph ''customers''
        [''customers'' \<mapsto> [''name''], ''orders'' \<mapsto> [''total'']]) ''orders'' =
      Some [''total'', ''created_at'']"
    by (simp add: time_step_def ccols ocols tcs)
  have cols: "plan_columns (repair_plan default_graph browse_plan ?q) ''orders'' =
      Some [''total'', ''created_at'']"
    by (simp add: repair_plan_def apply_intent_repairs_def intents Let_def tabs pruned
        ensure_display_columns_def ensure_time_columns_def shown timed)
  from repaired_columns_in_schema [OF v order cols] v order cols show ?thesis by simp
qed

subsection \<open>Evaluating the patterns\<close>

text \<open>
  A pattern that starts with \<open>\b\<close> and a literal can only match where the literal is; these
  equations let the matcher look for the literal first.
\<close>

lemma keyword_match:
  "rx_match ic (keyword kw) st =
     (if lit_prefix ic kw (m_rest st)
      then (if at_boundary st
            then (if at_boundary (advance (length kw) st) then [advance (length kw) st] else [])
            else [])
      else [])"
  by (simp add: keyword_def)

lemma table_ref_match:
  "rx_match ic (table_ref kw) st =
     (if lit_prefix ic kw (m_rest st)
      then (if at_boundary st
            then rx_match ic (Seq (PlusC is_space) (Group (PlusC is_table_char)))
                   (advance (length kw) st)
            else [])
      else [])"
  by (simp add: table_ref_def)

lemma delete_from_ref_match:
  "rx_match ic delete_from_ref st =
     (if lit_prefix ic ''DELETE'' (m_rest st)
      then (if at_boundary st
            then rx_match ic (Seq (PlusC is_space) (Seq (Lit ''FROM'')
                   (Seq (PlusC is_space) (Group (PlusC is_table_char)))))
                   (advance (length ''DELETE'') st)
            else [])
      else [])"
  unfolding delete_from_ref_def rx_match.simps(8) [of ic WordB]
    rx_match.simps(8) [of ic "Lit ''DELETE''"]
  by (simp del: rx_match.simps(8) advance.simps lit_prefix.simps)

lemma from_section_match:
  "rx_match ic from_section st =
     (if lit_prefix ic ''FROM'' (m_rest st)
      then (if at_boundary st
            then rx_match ic (Seq WordB (Seq LazyAny clause_ahead)) (advance (length ''FROM'') st)
            else [])
      else [])"
  unfolding from_section_def rx_match.simps(8) [of ic WordB]
    rx_match.simps(8) [of ic "Lit ''FROM''"]
  by (simp del: rx_match.simps(8) advance.simps lit_prefix.simps)

lemma look_wordb:
  "rx_match ic (Look (Seq WordB r)) st = (if at_boundary st then rx_match ic (Look r) st else [])"
  by simp

lemma clause_ahead_match:
  "rx_match ic clause_ahead st =
     (if lit_prefix ic ''ORDER BY'' (m_rest st) then rx_match ic (Look (Seq WordB (Seq
         (Alt (Lit ''ORDER BY'') (Alt (Lit ''GROUP BY'') (Alt (Lit ''LIMIT'') (Lit ''OFFSET''))))
         WordB))) st
      else if lit_prefix ic ''GROUP BY'' (m_rest st) then rx_match ic (Look (Seq WordB (Seq
         (Alt (Lit ''ORDER BY'') (Alt (Lit ''GROUP BY'') (Alt (Lit ''LIMIT'') (Lit ''OFFSET''))))
         WordB))) st
      else if lit_prefix ic ''LIMIT'' (m_rest st) then rx_match ic (Look (Seq WordB (Seq
         (Alt (Lit ''ORDER BY'') (Alt (Lit ''GROUP BY'') (Alt (Lit ''LIMIT'') (Lit ''OFFSET''))))
         WordB))) st
      else if lit_prefix ic ''OFFSET'' (m_rest st) then rx_match ic (Look (Seq WordB (Seq
         (Alt (Lit ''ORDER BY'') (Alt (Lit ''GROUP BY'') (Alt (Lit ''LIMIT'') (Lit ''OFFSET''))))
         WordB))) st
      else [])"
proof (cases "lit_prefix ic ''ORDER BY'' (m_rest st) \<or> lit_prefix ic ''GROUP BY'' (m_rest st) \<or>
         lit_prefix ic ''LIMIT'' (m_rest st) \<or> lit_prefix ic ''OFFSET'' (m_rest st)")
  case True
  then show ?thesis unfolding clause_ahead_def by presburger
next
  case False
  then have "rx_match ic (Seq
       (Alt (Lit ''ORDER BY'') (Alt (Lit ''GROUP BY'') (Alt (Lit ''LIMIT'') (Lit ''OFFSET''))))
       WordB) st = []"
    by (simp del: lit_prefix.simps advance.simps)
  then have "rx_match ic clause_ahead st = []"
    unfolding clause_ahead_def look_wordb by (simp del: rx_match.simps(8))
  with False show ?thesis by presburger
qed

lemmas class_eval = is_space_def is_word_char_def is_alpha_def is_quote_def is_table_char_def
  at_boundary_def upper_char_if

lemmas extract_eval = extract_tables_def table_patterns_def finditer_def table_ref_match
  delete_from_ref_match strip_def lstrip_def rstrip_def add_table_def table_name_of_def
  strip_char_def not_a_table_def set_add_def class_eval case_eval

lemmas safety_eval = perform_safety_checks_def dangerous_keywords_def found_def re_search_def
  keyword_match second_statement_def line_comment_def block_comment_def class_eval

lemmas check_eval = check_scoping_filter_exists_with_context_def table_scoping_column_def
  scoping_patterns_def several_def fmt_def found_def re_search_def equals_value_def
  equals_placeholder_def class_eval

lemmas append_eval = append_scoping_filter_with_context_def filter_condition_def
  table_scoping_column_def several_def fmt_def re_search_def keyword_match from_section_match
  clause_ahead_match rstrip_semicolons_def match_end_def class_eval

lemmas custom_eval = perform_custom_validation_def validator_def default_config_def
  operations_def found_def re_search_def keyword_match class_eval join_issues_def
  checked_relationships_def scoped_graph_def

subsection \<open>The validator on the example schema\<close>

lemma scoped_tables_validator:
  "scoped_tables (validator a L) = [(''shipments'', ''accounts_entity_id'')]"
  by (simp add: scoped_tables_def get_scoped_tables_def validator_def scoped_graph_def)

lemma validator_fields:
  "qv_libs (validator a L) = L" "qv_schema (validator a L) = scoped_graph"
  "cfg_enable_auto_scoping (qv_config (validator a L)) = a"
  "cfg_scoping_column (qv_config (validator a L)) = ''accounts_entity_id''"
  by (simp_all add: validator_def default_config_def)

lemma plain_checks:
  "scoping_plain (validator a L) [''shipments''] (Some ''E100'') (Some ''accounts_entity_id'')
     (Some [''E100''])"
  "joins_plain scoped_graph [''shipments'']"
  "joins_plain scoped_graph [''updates'']"
  by (simp_all add: scoping_plain_def table_scoping_column_def scoped_tables_validator fmt_def
      several_def plain_def joins_plain_def checked_relationships_def scoped_graph_def)

text \<open>
  The heuristic tier on one statement of the example schema that uses the table
  \<open>shipments\<close> only, given what each of its steps yields.
\<close>

lemma heuristic_tier:
  assumes "ast_validate (validator a L) sql (Some ''E100'') None = r"
    and "r = AstUnavailable \<or> r = AstValid"
    and "sqlparse_parse L sql = statement # later"
    and "extract_tables statement = [''shipments'']"
    and "enumerate_set L [''shipments''] = [''shipments'']"
    and "\<not> check_scoping_filter_exists_with_context (validator a L) statement [''shipments'']
           (Some ''E100'') (Some ''accounts_entity_id'') (Some [''E100''])"
    and "append_scoping_filter_with_context (validator a L) statement [''shipments'']
           (Some ''E100'') (Some ''accounts_entity_id'') (Some [''E100'']) = repaired"
    and "repaired \<noteq> []"
  shows "validate_sql (validator a L) sql (Some ''E100'') None =
     (if \<not> a then SqlInvalid (ScopedTablesNeedFilter [''shipments''])
      else (case perform_safety_checks statement of
              Some e \<Rightarrow> SqlInvalid e
            | None \<Rightarrow>
                (case perform_custom_validation (validator a L) statement [''shipments''] of
                   Some e \<Rightarrow> SqlInvalid e
                 | None \<Rightarrow>
                     SqlValid \<lparr>ok_tables = [''shipments''], ok_scoped_tables = [''shipments''],
                       ok_modified_sql = repaired, ok_scoping_applied = True,
                       ok_ast_used = (r = AstValid)\<rparr>)))"
proof -
  have scoping: "validate_scoping_filtering_with_context (validator a L) statement [''shipments'']
      (Some ''E100'') (Some ''accounts_entity_id'') (Some [''E100'']) =
      (if \<not> a then Inl (ScopedTablesNeedFilter [''shipments'']) else Inr (Some repaired, True))"
  proof (cases a)
    case True
    with assms(6-8) show ?thesis
      by (simp add: validate_scoping_filtering_with_context_def validator_fields Let_def)
  next
    case False
    with assms(6) show ?thesis
      by (simp add: validate_scoping_filtering_with_context_def validator_fields)
  qed
  have scoped: "is_scoped_table (validator a L) ''shipments''"
    by (simp add: is_scoped_table_def scoped_tables_validator)
  have tier: "validate_sql (validator a L) sql (Some ''E100'') None =
      (case validate_scoping_filtering_with_context (validator a L) statement [''shipments'']
              (Some ''E100'') (Some ''accounts_entity_id'') (Some [''E100'']) of
         Inl e \<Rightarrow> SqlInvalid e
       | Inr (modified_sql, scoping_applied) \<Rightarrow>
           (case perform_safety_checks statement of
              Some e \<Rightarrow> SqlInvalid e
            | None \<Rightarrow>
                (case perform_custom_validation (validator a L) statement [''shipments''] of
                   Some e \<Rightarrow> SqlInvalid e
                 | None \<Rightarrow>
                     SqlValid \<lparr>ok_tables = [''shipments''], ok_scoped_tables = [''shipments''],
                       ok_modified_sql = (case modified_sql of None \<Rightarrow> sql | Some m \<Rightarrow> m),
                       ok_scoping_applied = scoping_applied,
                       ok_ast_used = (r = AstValid)\<rparr>)))"
    using assms(2)
  proof
    assume "r = AstUnavailable"
    with assms(1,3,4,5) show ?thesis
      by (simp add: validate_sql_def validator_fields scoped truthy_def fmt_def plain_checks
          Let_def split: sum.split option.split prod.split)
  next
    assume "r = AstValid"
    with assms(1,3,4,5) show ?thesis
      by (simp add: validate_sql_def validator_fields scoped truthy_def fmt_def plain_checks
          Let_def split: sum.split option.split prod.split)
  qed
  show ?thesis
    unfolding tier scoping by (simp split: option.split)
qed

subsection \<open>Scoping repair and its repetition\<close>

lemma count_sql_steps:
  "extract_tables count_sql = [''shipments'']"
  "perform_safety_checks count_sql = None"
  "perform_custom_validation (validator a L) count_sql [''shipments''] = None"
proof -
  have u: "upper count_sql = ''SELECT COUNT(*) FROM SHIPMENTS''"
    by (simp add: count_sql_def case_eval)
  show "extract_tables count_sql = [''shipments'']"
    by (simp add: count_sql_def extract_eval)
  show "perform_safety_checks count_sql = None"
    by (simp add: u safety_eval)
  show "perform_custom_validation (validator a L) count_sql [''shipments''] = None"
    by (simp add: u custom_eval)
qed

lemma count_sql_scoping:
  "\<not> check_scoping_filter_exists_with_context (validator a L) count_sql [''shipments'']
       (Some ''E100'') (Some ''accounts_entity_id'') (Some [''E100''])"
  "append_scoping_filter_with_context (validator a L) count_sql [''shipments'']
       (Some ''E100'') (Some ''accounts_entity_id'') (Some [''E100'']) = count_sql_repaired"
proof -
  have l: "lower count_sql = ''select count(*) from shipments''"
    by (simp add: count_sql_def case_eval)
  show "\<not> check_scoping_filter_exists_with_context (validator a L) count_sql [''shipments'']
       (Some ''E100'') (Some ''accounts_entity_id'') (Some [''E100''])"
    by (simp add: l check_eval scoped_tables_validator)
  show "append_scoping_filter_with_context (validator a L) count_sql [''shipments'']
       (Some ''E100'') (Some ''accounts_entity_id'') (Some [''E100'']) = count_sql_repaired"
    by (simp add: append_eval scoped_tables_validator count_sql_def count_sql_repaired_def)
qed

lemma repaired_steps:
  "extract_tables count_sql_repaired = [''shipments'']"
  "perform_safety_checks count_sql_repaired = None"
  "perform_custom_validation (validator a L) count_sql_repaired [''shipments''] = None"
proof -
  have u: "upper count_sql_repaired =
      ''SELECT COUNT(*) FROM SHIPMENTS WHERE ACCOUNTS_ENTITY_ID = '' @ [CHR 0x27] @ ''E100'' @
      [CHR 0x27] @ '';''"
    by (simp add: count_sql_repaired_def case_eval)
  show "extract_tables count_sql_repaired = [''shipments'']"
    by (simp add: count_sql_repaired_def extract_eval)
  show "perform_safety_checks count_sql_repaired = None"
    by (simp add: u safety_eval)
  show "perform_custom_validation (validator a L) count_sql_repaired [''shipments''] = None"
    by (simp add: u custom_eval)
qed

text \<open>
  The statement is lower-cased before the search, the scoping value is not: the filter
  \<open>accounts_entity_id = 'E100'\<close> of the repaired SQL is not found.
\<close>

lemma repaired_scoping:
  "\<not> check_scoping_filter_exists_with_context (validator a L) count_sql_repaired [''shipments'']
       (Some ''E100'') (Some ''accounts_entity_id'') (Some [''E100''])"
  "append_scoping_filter_with_context (validator a L) count_sql_repaired [''shipments'']
       (Some ''E100'') (Some ''accounts_entity_id'') (Some [''E100'']) = count_sql_repaired_twice"
proof -
  have l: "lower count_sql_repaired =
      ''select count(*) from shipments where accounts_entity_id = '' @ [CHR 0x27] @ ''e100'' @
      [CHR 0x27] @ '';''"
    by (simp add: count_sql_repaired_def case_eval)
  show "\<not> check_scoping_filter_exists_with_context (validator a L) count_sql_repaired
       [''shipments''] (Some ''E100'') (Some ''accounts_entity_id'') (Some [''E100''])"
    by (simp add: l check_eval scoped_tables_validator)
  show "append_scoping_filter_with_context (validator a L) count_sql_repaired [''shipments'']
       (Some ''E100'') (Some ''accounts_entity_id'') (Some [''E100'']) = count_sql_repaired_twice"
    by (simp add: append_eval scoped_tables_validator count_sql_repaired_def
        count_sql_repaired_twice_def)
qed

lemma repaired_texts:
  "count_sql_repaired \<noteq> []" "count_sql_repaired_twice \<noteq> []"
  "count_sql_repaired_twice \<noteq> count_sql_repaired"
  by (simp_all add: count_sql_repaired_def count_sql_repaired_twice_def)

lemma ast_unavailable:
  "sqlglot_parse_one L sql = None \<Longrightarrow> ast_validate (validator a L) sql v uc = AstUnavailable"
  by (simp add: ast_validate_def validator_fields)

text \<open>
  C1. With auto-scoping enabled, \<open>SELECT COUNT(*) FROM shipments\<close> and the scoping value
  \<open>E100\<close> are accepted with the repaired SQL the claim names. Validating that repaired SQL
  again is accepted too, but not unchanged: its filter is not recognised, and a second filter
  is inserted after \<open>WHERE\<close>. (The libraries are taken as they behave on a single statement
  without sqlglot.)
\<close>

theorem scoping_repair_not_idempotent:
  assumes "sqlparse_parse L count_sql = [count_sql]"
    and "sqlparse_parse L count_sql_repaired = [count_sql_repaired]"
    and "sqlglot_parse_one L count_sql = None"
    and "sqlglot_parse_one L count_sql_repaired = None"
    and "enumerate_set L [''shipments''] = [''shipments'']"
  shows "validate_sql (validator True L) count_sql (Some ''E100'') None =
           SqlValid \<lparr>ok_tables = [''shipments''], ok_scoped_tables = [''shipments''],
             ok_modified_sql = count_sql_repaired, ok_scoping_applied = True,
             ok_ast_used = False\<rparr>
       \<and> validate_sql (validator True L) count_sql_repaired (Some ''E100'') None =
           SqlValid \<lparr>ok_tables = [''shipments''], ok_scoped_tables = [''shipments''],
             ok_modified_sql = count_sql_repaired_twice, ok_scoping_applied = True,
             ok_ast_used = False\<rparr>
       \<and> count_sql_repaired_twice \<noteq> count_sql_repaired"
proof -
  have "validate_sql (validator True L) count_sql (Some ''E100'') None =
      SqlValid \<lparr>ok_tables = [''shipments''], ok_scoped_tables = [''shipments''],
        ok_modified_sql = count_sql_repaired, ok_scoping_applied = True, ok_ast_used = False\<rparr>"
    using heuristic_tier [OF ast_unavailable [OF assms(3)] _ assms(1) count_sql_steps(1)
        assms(5) count_sql_scoping repaired_texts(1), of True]
    by (simp add: count_sql_steps)
  moreover have "validate_sql (validator True L) count_sql_repaired (Some ''E100'') None =
      SqlValid \<lparr>ok_tables = [''shipments''], ok_scoped_tables = [''shipments''],
        ok_modified_sql = count_sql_repaired_twice, ok_scoping_applied = True,
        ok_ast_used = False\<rparr>"
    using heuristic_tier [OF ast_unavailable [OF assms(4)] _ assms(2) repaired_steps(1)
        assms(5) repaired_scoping repaired_texts(2), of True]
    by (simp add: repaired_steps)
  ultimately show ?thesis by (simp add: repaired_texts)
qed

theorem scoping_repair_not_idempotent_witness:
  "sqlparse_parse single_statement_libs count_sql = [count_sql]
   \<and> sqlparse_parse single_statement_libs count_sql_repaired = [count_sql_repaired]
   \<and> sqlglot_parse_one single_statement_libs count_sql = None
   \<and> sqlglot_parse_one single_statement_libs count_sql_repaired = None
   \<and> enumerate_set single_statement_libs [''shipments''] = [''shipments'']
   \<and> validate_sql (validator True single_statement_libs) count_sql_repaired (Some ''E100'') None =
       SqlValid \<lparr>ok_tables = [''shipments''], ok_scoped_tables = [''shipments''],
         ok_modified_sql = count_sql_repaired_twice, ok_scoping_applied = True,
         ok_ast_used = False\<rparr>"
proof -
  have h: "sqlparse_parse single_statement_libs count_sql = [count_sql]"
    "sqlparse_parse single_statement_libs count_sql_repaired = [count_sql_repaired]"
    "sqlglot_parse_one single_statement_libs count_sql = None"
    "sqlglot_parse_one single_statement_libs count_sql_repaired = None"
    "enumerate_set single_statement_libs [''shipments''] = [''shipments'']"
    by (simp_all add: single_statement_libs_def)
  from scoping_repair_not_idempotent [OF h] h show ?thesis by simp
qed

text \<open>
  Whatever sqlglot returns for the repaired SQL, the second validation never accepts it
  unchanged: it is rejected by the AST tier, or accepted with the doubled filter.
\<close>

lemma revalidation_never_unchanged:
  assumes "sqlparse_parse L count_sql_repaired = [count_sql_repaired]"
    and "enumerate_set L [''shipments''] = [''shipments'']"
    and "validate_sql (validator True L) count_sql_repaired (Some ''E100'') None = SqlValid ok"
  shows "ok_modified_sql ok = count_sql_repaired_twice"
proof (cases "ast_validate (validator True L) count_sql_repaired (Some ''E100'') None")
  case AstUnavailable
  from heuristic_tier [OF AstUnavailable _ assms(1) repaired_steps(1) assms(2)
      repaired_scoping repaired_texts(2)] assms(3)
  show ?thesis by (auto simp: repaired_steps)
next
  case AstValid
  from heuristic_tier [OF AstValid _ assms(1) repaired_steps(1) assms(2)
      repaired_scoping repaired_texts(2)] assms(3)
  show ?thesis by (auto simp: repaired_steps)
next
  case (AstInvalid e)
  with assms(3) show ?thesis by (simp add: validate_sql_def)
next
  case AstOutsideModel
  with assms(3) show ?thesis by (simp add: validate_sql_def)
qed

text \<open>With a scoping value in lower case the same filter is recognised.\<close>

lemma lower_case_value_recognised:
  "check_scoping_filter_exists_with_context (validator a L)
     (''SELECT COUNT(*) FROM shipments WHERE accounts_entity_id = '' @ [CHR 0x27] @ ''e100'' @
      [CHR 0x27] @ '';'')
     [''shipments''] (Some ''e100'') (Some ''accounts_entity_id'') (Some [''e100''])"
proof -
  have l: "lower (''SELECT COUNT(*) FROM shipments WHERE accounts_entity_id = '' @ [CHR 0x27] @
      ''e100'' @ [CHR 0x27] @ '';'') =
      ''select count(*) from shipments where accounts_entity_id = '' @ [CHR 0x27] @ ''e100'' @
      [CHR 0x27] @ '';''"
    by (simp add: case_eval)
  show ?thesis
    unfolding check_scoping_filter_exists_with_context_def l
    by (simp add: check_eval scoped_tables_validator)
qed

subsection \<open>Two statements\<close>

lemma first_statement_steps:
  "extract_tables first_statement = [''shipments'']"
  "perform_safety_checks first_statement = None"
  "perform_custom_validation (validator a L) first_statement [''shipments''] = None"
  "\<not> check_scoping_filter_exists_with_context (validator a L) first_statement [''shipments'']
       (Some ''E100'') (Some ''accounts_entity_id'') (Some [''E100''])"
  "append_scoping_filter_with_context (validator a L) first_statement [''shipments'']
       (Some ''E100'') (Some ''accounts_entity_id'') (Some [''E100'']) = first_statement_repaired"
proof -
  have u: "upper first_statement = ''SELECT * FROM SHIPMENTS;''"
    by (simp add: first_statement_def case_eval)
  have l: "lower first_statement = ''select * from shipments;''"
    by (simp add: first_statement_def case_eval)
  show "extract_tables first_statement = [''shipments'']"
    by (simp add: first_statement_def extract_eval)
  show "perform_safety_checks first_statement = None"
    by (simp add: u safety_eval)
  show "perform_custom_validation (validator a L) first_statement [''shipments''] = None"
    by (simp add: u custom_eval)
  show "\<not> check_scoping_filter_exists_with_context (validator a L) first_statement
       [''shipments''] (Some ''E100'') (Some ''accounts_entity_id'') (Some [''E100''])"
    by (simp add: l check_eval scoped_tables_validator)
  show "append_scoping_filter_with_context (validator a L) first_statement [''shipments'']
       (Some ''E100'') (Some ''accounts_entity_id'') (Some [''E100'']) = first_statement_repaired"
    by (simp add: append_eval scoped_tables_validator first_statement_def
        first_statement_repaired_def)
qed

lemma first_statement_blank_steps:
  "extract_tables first_statement_blank = [''shipments'']"
  "perform_safety_checks first_statement_blank = None"
  "perform_custom_validation (validator a L) first_statement_blank [''shipments''] = None"
  "\<not> check_scoping_filter_exists_with_context (validator a L) first_statement_blank
       [''shipments''] (Some ''E100'') (Some ''accounts_entity_id'') (Some [''E100''])"
  "append_scoping_filter_with_context (validator a L) first_statement_blank [''shipments'']
       (Some ''E100'') (Some ''accounts_entity_id'') (Some [''E100'']) =
     first_statement_blank_repaired"
proof -
  have u: "upper first_statement_blank = ''SELECT * FROM SHIPMENTS; ''"
    by (simp add: first_statement_blank_def case_eval)
  have l: "lower first_statement_blank = ''select * from shipments; ''"
    by (simp add: first_statement_blank_def case_eval)
  show "extract_tables first_statement_blank = [''shipments'']"
    by (simp add: first_statement_blank_def extract_eval)
  show "perform_safety_checks first_statement_blank = None"
    by (simp add: u safety_eval)
  show "perform_custom_validation (validator a L) first_statement_blank [''shipments''] = None"
    by (simp add: u custom_eval)
  show "\<not> check_scoping_filter_exists_with_context (validator a L) first_statement_blank
       [''shipments''] (Some ''E100'') (Some ''accounts_entity_id'') (Some [''E100''])"
    by (simp add: l check_eval scoped_tables_validator)
  show "append_scoping_filter_with_context (validator a L) first_statement_blank [''shipments'']
       (Some ''E100'') (Some ''accounts_entity_id'') (Some [''E100'']) =
     first_statement_blank_repaired"
    by (simp add: append_eval scoped_tables_validator first_statement_blank_def
        first_statement_blank_repaired_def)
qed

lemma statement_texts:
  "first_statement_repaired \<noteq> []" "first_statement_blank_repaired \<noteq> []"
  by (simp_all add: first_statement_repaired_def first_statement_blank_repaired_def)

text \<open>
  C2, as the code has it. \<open>validate_sql\<close> checks only the first statement that sqlparse
  returns. For \<open>SELECT * FROM shipments; DROP TABLE shipments;\<close> that is the \<open>SELECT\<close>
  (with or without the blank after its semicolon), in which no second statement is left to
  detect: with auto-scoping enabled the text is accepted, with auto-scoping disabled it is
  rejected for the missing scoping filter. (Stated for a machine without sqlglot.)
\<close>

theorem second_statement_not_detected:
  assumes "sqlparse_parse L injection_sql = statement # later"
    and "statement = first_statement \<or> statement = first_statement_blank"
    and "sqlglot_parse_one L injection_sql = None"
    and "enumerate_set L [''shipments''] = [''shipments'']"
  shows "validate_sql (validator True L) injection_sql (Some ''E100'') None =
           SqlValid \<lparr>ok_tables = [''shipments''], ok_scoped_tables = [''shipments''],
             ok_modified_sql =
               (if statement = first_statement then first_statement_repaired
                else first_statement_blank_repaired),
             ok_scoping_applied = True, ok_ast_used = False\<rparr>
       \<and> validate_sql (validator False L) injection_sql (Some ''E100'') None =
           SqlInvalid (ScopedTablesNeedFilter [''shipments''])"
  using assms(2)
proof
  assume s: "statement = first_statement"
  note parse = assms(1) [unfolded s]
  have "validate_sql (validator True L) injection_sql (Some ''E100'') None =
      SqlValid \<lparr>ok_tables = [''shipments''], ok_scoped_tables = [''shipments''],
        ok_modified_sql = first_statement_repaired, ok_scoping_applied = True,
        ok_ast_used = False\<rparr>"
    using heuristic_tier [OF ast_unavailable [OF assms(3)] _ parse first_statement_steps(1)
        assms(4) first_statement_steps(4,5) statement_texts(1), of True]
    by (simp add: first_statement_steps)
  moreover have "validate_sql (validator False L) injection_sql (Some ''E100'') None =
      SqlInvalid (ScopedTablesNeedFilter [''shipments''])"
    using heuristic_tier [OF ast_unavailable [OF assms(3)] _ parse first_statement_steps(1)
        assms(4) first_statement_steps(4,5) statement_texts(1), of False]
    by simp
  ultimately show ?thesis using s by simp
next
  assume s: "statement = first_statement_blank"
  note parse = assms(1) [unfolded s]
  have ne: "first_statement_blank \<noteq> first_statement"
    by (simp add: first_statement_def first_statement_blank_def)
  have "validate_sql (validator True L) injection_sql (Some ''E100'') None =
      SqlValid \<lparr>ok_tables = [''shipments''], ok_scoped_tables = [''shipments''],
        ok_modified_sql = first_statement_blank_repaired, ok_scoping_applied = True,
        ok_ast_used = False\<rparr>"
    using heuristic_tier [OF ast_unavailable [OF assms(3)] _ parse first_statement_blank_steps(1)
        assms(4) first_statement_blank_steps(4,5) statement_texts(2), of True]
    by (simp add: first_statement_blank_steps)
  moreover have "validate_sql (validator False L) injection_sql (Some ''E100'') None =
      SqlInvalid (ScopedTablesNeedFilter [''shipments''])"
    using heuristic_tier [OF ast_unavailable [OF assms(3)] _ parse first_statement_blank_steps(1)
        assms(4) first_statement_blank_steps(4,5) statement_texts(2), of False]
    by simp
  ultimately show ?thesis using s ne by simp
qed

theorem second_statement_not_detected_witness:
  "sqlparse_parse splitting_libs injection_sql = [first_statement_blank, ''DROP TABLE shipments;'']
   \<and> sqlglot_parse_one splitting_libs injection_sql = None
   \<and> enumerate_set splitting_libs [''shipments''] = [''shipments'']
   \<and> validate_sql (validator True splitting_libs) injection_sql (Some ''E100'') None =
       SqlValid \<lparr>ok_tables = [''shipments''], ok_scoped_tables = [''shipments''],
         ok_modified_sql = first_statement_blank_repaired, ok_scoping_applied = True,
         ok_ast_used = False\<rparr>
   \<and> validate_sql (validator False splitting_libs) injection_sql (Some ''E100'') None =
       SqlInvalid (ScopedTablesNeedFilter [''shipments''])"
proof -
  have h1: "sqlparse_parse splitting_libs injection_sql =
      first_statement_blank # [''DROP TABLE shipments;'']"
    by (simp add: splitting_libs_def injection_sql_def first_statement_blank_def is_blank_def
        is_space_def)
  have h2: "first_statement_blank = first_statement \<or> first_statement_blank = first_statement_blank"
    by simp
  have h3: "sqlglot_parse_one splitting_libs injection_sql = None"
    and h4: "enumerate_set splitting_libs [''shipments''] = [''shipments'']"
    by (simp_all add: splitting_libs_def)
  have ne: "first_statement_blank \<noteq> first_statement"
    by (simp add: first_statement_def first_statement_blank_def)
  from second_statement_not_detected [OF h1 h2 h3 h4] h1 h3 h4 ne show ?thesis by simp
qed

text \<open>
  Were the whole text handed over as one statement, it would be rejected, but for the keyword
  \<open>DROP\<close>, which is tested before the test for a second statement.
\<close>

lemma whole_text_rejected_for_keyword:
  "perform_safety_checks injection_sql = Some (DangerousOperation ''DROP'')"
proof -
  have u: "upper injection_sql = ''SELECT * FROM SHIPMENTS; DROP TABLE SHIPMENTS;''"
    by (simp add: injection_sql_def case_eval)
  show ?thesis by (simp add: u safety_eval)
qed

text \<open>The test for a second statement does fire on a text that has no dangerous keyword.\<close>

lemma second_statement_found:
  "perform_safety_checks ''SELECT 1; SELECT 2'' = Some MultipleStatements"
proof -
  have u: "upper ''SELECT 1; SELECT 2'' = ''SELECT 1; SELECT 2''"
    by (simp add: case_eval)
  show ?thesis by (simp add: u safety_eval)
qed

subsection \<open>Word boundaries\<close>

lemma upper_append: "upper (a @ b) = upper a @ upper b"
  by (simp add: upper_def)

text \<open>
  C6. The pattern \<open>\bUPDATE\b\<close> never matches where the text goes on as \<open>updates\<close>,
  whatever precedes and follows the identifier; \<open>SELECT * FROM updates\<close> passes the safety
  checks and the operation allow-list and is accepted by \<open>validate_sql\<close> unchanged, while a
  real \<open>UPDATE\<close> statement is rejected.
\<close>

theorem updates_identifier_not_rejected:
  "rx_match False (keyword ''UPDATE'')
      \<lparr>m_prev = before, m_rest = upper (''updates'' @ rest), m_group = g\<rparr> = []
   \<and> perform_safety_checks updates_sql = None
   \<and> perform_custom_validation (validator a L) updates_sql [''updates''] = None
   \<and> validate_sql (validator a single_statement_libs) updates_sql scoping_value None =
       SqlValid \<lparr>ok_tables = [''updates''], ok_scoped_tables = [], ok_modified_sql = updates_sql,
         ok_scoping_applied = False, ok_ast_used = False\<rparr>
   \<and> perform_safety_checks ''UPDATE shipments SET status = 1'' =
       Some (DangerousOperation ''UPDATE'')"
proof -
  have u: "upper updates_sql = ''SELECT * FROM UPDATES''"
    by (simp add: updates_sql_def case_eval)
  have u2: "upper ''UPDATE shipments SET status = 1'' = ''UPDATE SHIPMENTS SET STATUS = 1''"
    by (simp add: case_eval)
  have word: "rx_match False (keyword ''UPDATE'')
      \<lparr>m_prev = before, m_rest = upper (''updates'' @ rest), m_group = g\<rparr> = []"
    unfolding upper_append keyword_match
    by (simp add: case_eval class_eval)
  have safe: "perform_safety_checks updates_sql = None"
    by (simp add: u safety_eval)
  have custom: "perform_custom_validation (validator a L') updates_sql [''updates''] = None"
    for L'
    by (simp add: u custom_eval)
  have tabs: "extract_tables updates_sql = [''updates'']"
    by (simp add: updates_sql_def extract_eval)
  have unscoped: "\<not> is_scoped_table (validator a single_statement_libs) ''updates''"
    by (simp add: is_scoped_table_def scoped_tables_validator)
  have libs: "sqlparse_parse single_statement_libs updates_sql = [updates_sql]"
    "sqlglot_parse_one single_statement_libs updates_sql = None"
    "enumerate_set single_statement_libs [''updates''] = [''updates'']"
    by (simp_all add: single_statement_libs_def)
  have valid: "validate_sql (validator a single_statement_libs) updates_sql scoping_value None =
      SqlValid \<lparr>ok_tables = [''updates''], ok_scoped_tables = [], ok_modified_sql = updates_sql,
        ok_scoping_applied = False, ok_ast_used = False\<rparr>"
    by (simp add: validate_sql_def ast_unavailable libs validator_fields tabs unscoped
        plain_checks safe custom Let_def)
  have real: "perform_safety_checks ''UPDATE shipments SET status = 1'' =
      Some (DangerousOperation ''UPDATE'')"
    by (simp add: u2 safety_eval)
  from word safe custom valid real show ?thesis by simp
qed


end
